theory Spec2Isabelle
  imports Complex_Main
begin

section \<open>Tables\<close>

text \<open>
  The two scripts \<^verbatim>\<open>data_cleaning.py\<close> and \<^verbatim>\<open>data_transformation.py\<close> work on
  a pandas DataFrame read from a CSV file. A value of the table is missing (NaN), a
  number, an infinity (\<open>Inf True\<close> is \<open>+inf\<close>) or a string. Numbers are kept with
  their exact value. The rounding and the overflow of 64-bit floats are modelled where a
  whole number is read from a run of digits, in \<open>float_of_nat\<close>; the rounding of decimal
  fractions and of quotients, the sign of zero and the difference between the integer 13
  and the float 13.0 are not part of the model. Strings are ASCII.

  A row maps a column name to its value; only the names listed in \<open>columns\<close> belong to
  the table, and no definition reads a row at another name without checking first, as
  the scripts do with \<^verbatim>\<open>if col in df.columns\<close>. The number of rows is that of
  the list \<open>rows\<close>, also when the table has no column left.
\<close>

datatype cell = Null | Num rat | Inf bool | Str string

type_synonym row = "string \<Rightarrow> cell"

record frame =
  columns :: "string list"
  rows :: "row list"

definition isnull :: "cell \<Rightarrow> bool" where
  "isnull v = (v = Null)"

definition is_str :: "cell \<Rightarrow> bool" where
  "is_str v = (case v of Str s \<Rightarrow> True | _ \<Rightarrow> False)"

definition column_values :: "frame \<Rightarrow> string \<Rightarrow> cell list" where
  "column_values df c = map (\<lambda>r. r c) (rows df)"

definition null_count :: "frame \<Rightarrow> string \<Rightarrow> nat" where
  "null_count df c = length (filter isnull (column_values df c))"

definition mk_row :: "(string \<times> cell) list \<Rightarrow> row" where
  "mk_row kvs = (\<lambda>c. case map_of kvs c of Some v \<Rightarrow> v | None \<Rightarrow> Null)"

text \<open>Two rows are the same row of a table when they agree on its columns.\<close>

definition row_eq :: "string list \<Rightarrow> row \<Rightarrow> row \<Rightarrow> bool" where
  "row_eq cols r s = list_all (\<lambda>c. r c = s c) cols"

text \<open>Two tables hold the same data, and are written to the same file, when they have
  the same columns and their rows agree, one by one, on these columns.\<close>

definition same_table :: "frame \<Rightarrow> frame \<Rightarrow> bool" where
  "same_table a b =
     (columns a = columns b \<and> list_all2 (row_eq (columns a)) (rows a) (rows b))"

section \<open>Text of numbers\<close>

definition is_digit :: "char \<Rightarrow> bool" where
  "is_digit c = (c \<in> set ''0123456789'')"

definition digit_val :: "char \<Rightarrow> nat" where
  "digit_val c = (case map_of (zip ''0123456789'' [0, 1, 2, 3, 4, 5, 6, 7, 8, 9]) c of
     Some d \<Rightarrow> d | None \<Rightarrow> 0)"

definition nat_of_digits :: "string \<Rightarrow> nat" where
  "nat_of_digits ds = foldl (\<lambda>n c. 10 * n + digit_val c) 0 ds"

definition digit_char :: "nat \<Rightarrow> char" where
  "digit_char d = ''0123456789'' ! (d mod 10)"

fun show_nat :: "nat \<Rightarrow> string" where
  "show_nat n = (if n < 10 then [digit_char n] else show_nat (n div 10) @ [digit_char n])"

text \<open>The format \<^verbatim>\<open>{n:,}\<close>: a comma before every group of three digits.\<close>

fun group3 :: "string \<Rightarrow> string" where
  "group3 (a # b # c # d # ds) = a # b # c # CHR '','' # group3 (d # ds)"
| "group3 ds = ds"

definition show_nat_commas :: "nat \<Rightarrow> string" where
  "show_nat_commas n = rev (group3 (rev (show_nat n)))"

definition show_int :: "int \<Rightarrow> string" where
  "show_int i = (if i < 0 then CHR ''-'' # show_nat (nat (- i)) else show_nat (nat i))"

definition show_int_commas :: "int \<Rightarrow> string" where
  "show_int_commas i =
     (if i < 0 then CHR ''-'' # show_nat_commas (nat (- i)) else show_nat_commas (nat i))"

section \<open>Python's float() on a string\<close>

text \<open>
  \<^verbatim>\<open>astype(float)\<close> on a column of strings calls Python's \<^verbatim>\<open>float\<close> on each of
  them: white space around the text is dropped, letters are read in either case, an
  optional sign is followed by \<^verbatim>\<open>nan\<close>, \<^verbatim>\<open>inf\<close>, \<^verbatim>\<open>infinity\<close> or a decimal
  number with an optional exponent, whose digits may be separated by single
  underscores. Any other text raises ValueError, here \<open>None\<close>.
\<close>

definition is_space :: "char \<Rightarrow> bool" where
  "is_space c = (c \<in> set [CHR '' '', CHR 0x09, CHR 0x0A, CHR 0x0B, CHR 0x0C, CHR 0x0D])"

definition strip :: "string \<Rightarrow> string" where
  "strip s = rev (dropWhile is_space (rev (dropWhile is_space s)))"

definition lower_char :: "char \<Rightarrow> char" where
  "lower_char c =
     (case map_of (zip ''ABCDEFGHIJKLMNOPQRSTUVWXYZ'' ''abcdefghijklmnopqrstuvwxyz'') c of
        Some l \<Rightarrow> l | None \<Rightarrow> c)"

fun no_double_underscore :: "string \<Rightarrow> bool" where
  "no_double_underscore (a # b # cs) =
     (\<not> (a = CHR ''_'' \<and> b = CHR ''_'') \<and> no_double_underscore (b # cs))"
| "no_double_underscore cs = True"

definition digitpart :: "string \<Rightarrow> string option" where
  "digitpart s =
     (if s \<noteq> [] \<and> is_digit (hd s) \<and> is_digit (last s)
         \<and> list_all (\<lambda>c. is_digit c \<or> c = CHR ''_'') s \<and> no_double_underscore s
      then Some (filter is_digit s) else None)"

text \<open>The mantissa: \<^verbatim>\<open>[digitpart] "." digitpart | digitpart ["."]\<close>, as its digits
  before and after the point.\<close>

definition mantissa :: "string \<Rightarrow> (string \<times> string) option" where
  "mantissa s =
     (let i = takeWhile (\<lambda>c. c \<noteq> CHR ''.'') s; rest = dropWhile (\<lambda>c. c \<noteq> CHR ''.'') s
      in case rest of
           [] \<Rightarrow> map_option (\<lambda>ds. (ds, [])) (digitpart i)
         | dot # f \<Rightarrow>
             if f = [] then map_option (\<lambda>ds. (ds, [])) (digitpart i)
             else if i = [] then map_option (\<lambda>fs. ([], fs)) (digitpart f)
             else (case (digitpart i, digitpart f) of
                     (Some ds, Some fs) \<Rightarrow> Some (ds, fs) | _ \<Rightarrow> None))"

definition exponent :: "string \<Rightarrow> int option" where
  "exponent s =
     (case s of
        [] \<Rightarrow> None
      | c # cs \<Rightarrow>
          if c = CHR ''-'' then map_option (\<lambda>ds. - int (nat_of_digits ds)) (digitpart cs)
          else if c = CHR ''+'' then map_option (\<lambda>ds. int (nat_of_digits ds)) (digitpart cs)
          else map_option (\<lambda>ds. int (nat_of_digits ds)) (digitpart s))"

definition scale10 :: "rat \<Rightarrow> int \<Rightarrow> rat" where
  "scale10 q e = (if e < 0 then q / 10 ^ nat (- e) else q * 10 ^ nat e)"

definition floatnumber :: "string \<Rightarrow> rat option" where
  "floatnumber s =
     (let m = takeWhile (\<lambda>c. c \<noteq> CHR ''e'') s; rest = dropWhile (\<lambda>c. c \<noteq> CHR ''e'') s
      in case mantissa m of
           None \<Rightarrow> None
         | Some (ds, fs) \<Rightarrow>
             (let q = of_nat (nat_of_digits (ds @ fs)) / 10 ^ length fs
              in case rest of
                   [] \<Rightarrow> Some q
                 | e # ex \<Rightarrow> map_option (scale10 q) (exponent ex)))"

definition py_float :: "string \<Rightarrow> cell option" where
  "py_float s =
     (let t = map lower_char (strip s);
          neg = (t \<noteq> [] \<and> hd t = CHR ''-'');
          u = (if t \<noteq> [] \<and> (hd t = CHR ''-'' \<or> hd t = CHR ''+'') then tl t else t)
      in if u = ''nan'' then Some Null
         else if u = ''inf'' \<or> u = ''infinity'' then Some (Inf (\<not> neg))
         else map_option (\<lambda>q. Num (if neg then - q else q)) (floatnumber u))"

section \<open>Cleaning: data\_cleaning.py\<close>

text \<open>The entries of the list \<^verbatim>\<open>steps\<close>, and the text each one is.\<close>

datatype step =
    Removed_empty nat
  | Removed_high_missing nat
  | Removed_dupes nat
  | Removed_missing nat string
  | Converted string

definition render_step :: "step \<Rightarrow> string" where
  "render_step st =
     (case st of
        Removed_empty n \<Rightarrow> ''Removed '' @ show_nat n @ '' empty columns''
      | Removed_high_missing n \<Rightarrow> ''Removed '' @ show_nat n @ '' columns with >80% missing''
      | Removed_dupes n \<Rightarrow> ''Removed '' @ show_nat n @ '' duplicate rows''
      | Removed_missing n col \<Rightarrow> ''Removed '' @ show_nat n @ '' rows with missing '' @ col
      | Converted col \<Rightarrow> ''Converted '' @ col @ '' to numeric'')"

subsection \<open>1. Remove empty columns\<close>

text \<open>\<^verbatim>\<open>df.dropna(axis=1, how='all')\<close> keeps the columns that have a value in some
  row; a table with no row loses all its columns.\<close>

definition dropna_all_columns :: "frame \<Rightarrow> frame" where
  "dropna_all_columns df =
     df\<lparr>columns := filter (\<lambda>c. list_ex (\<lambda>r. \<not> isnull (r c)) (rows df)) (columns df)\<rparr>"

definition remove_empty_columns :: "frame \<times> step list \<Rightarrow> frame \<times> step list" where
  "remove_empty_columns st =
     (let df = fst st; steps = snd st;
          start_cols = length (columns df);
          df' = dropna_all_columns df;
          removed_empty = start_cols - length (columns df')
      in (df', if removed_empty > 0 then steps @ [Removed_empty removed_empty] else steps))"

subsection \<open>2. Remove high missing columns\<close>

text \<open>
  \<^verbatim>\<open>missing_pct = df.isnull().sum() / len(df)\<close> and \<^verbatim>\<open>missing_pct > 0.8\<close>: the
  share of missing values of a column is above four fifths. The comparison is written
  on the counts; for a table with no row the quotient is NaN and no column is chosen.
\<close>

definition high_missing :: "frame \<Rightarrow> string list" where
  "high_missing df =
     filter (\<lambda>c. 5 * null_count df c > 4 * length (rows df)) (columns df)"

definition drop_columns :: "string list \<Rightarrow> frame \<Rightarrow> frame" where
  "drop_columns cs df = df\<lparr>columns := filter (\<lambda>c. c \<notin> set cs) (columns df)\<rparr>"

definition remove_high_missing :: "frame \<times> step list \<Rightarrow> frame \<times> step list" where
  "remove_high_missing st =
     (let df = fst st; steps = snd st;
          hm = high_missing df;
          df' = drop_columns hm df
      in (df', if length hm > 0 then steps @ [Removed_high_missing (length hm)] else steps))"

subsection \<open>3. Remove duplicates\<close>

text \<open>\<^verbatim>\<open>df.drop_duplicates()\<close> keeps the first of the rows that are equal on every
  column (missing values count as equal), and returns a copy of a table that has no
  row or no column.\<close>

fun dedup_rows :: "string list \<Rightarrow> row list \<Rightarrow> row list \<Rightarrow> row list" where
  "dedup_rows cols seen [] = []"
| "dedup_rows cols seen (r # rs) =
     (if list_ex (row_eq cols r) seen then dedup_rows cols seen rs
      else r # dedup_rows cols (r # seen) rs)"

definition drop_duplicates :: "frame \<Rightarrow> frame" where
  "drop_duplicates df =
     (if columns df = [] \<or> rows df = [] then df
      else df\<lparr>rows := dedup_rows (columns df) [] (rows df)\<rparr>)"

definition remove_duplicates :: "frame \<times> step list \<Rightarrow> frame \<times> step list" where
  "remove_duplicates st =
     (let df = fst st; steps = snd st;
          start_rows = length (rows df);
          df' = drop_duplicates df;
          removed_dupes = start_rows - length (rows df')
      in (df', if removed_dupes > 0 then steps @ [Removed_dupes removed_dupes] else steps))"

subsection \<open>4. Clean key columns\<close>

definition key_cols :: "string list" where
  "key_cols = [''loan_amnt'', ''term'', ''int_rate'', ''grade'', ''loan_status'']"

definition dropna_subset :: "string \<Rightarrow> frame \<Rightarrow> frame" where
  "dropna_subset col df = df\<lparr>rows := filter (\<lambda>r. \<not> isnull (r col)) (rows df)\<rparr>"

text \<open>The body of the loop \<^verbatim>\<open>for col in key_cols\<close>.\<close>

definition clean_key_col :: "frame \<times> step list \<Rightarrow> string \<Rightarrow> frame \<times> step list" where
  "clean_key_col st col =
     (let df = fst st; steps = snd st
      in if col \<in> set (columns df) then
           (let missing = null_count df col
            in if missing > 0 then (dropna_subset col df, steps @ [Removed_missing missing col])
               else (df, steps))
         else (df, steps))"

definition clean_key_columns :: "frame \<times> step list \<Rightarrow> frame \<times> step list" where
  "clean_key_columns st = foldl clean_key_col st key_cols"

subsection \<open>5. Convert percentages\<close>

definition rstrip_percent :: "string \<Rightarrow> string" where
  "rstrip_percent s = rev (dropWhile (\<lambda>c. c = CHR ''%'') (rev s))"

text \<open>
  \<^verbatim>\<open>astype(str).str.rstrip('%').astype(float)\<close> on one value. A string loses its
  trailing percent signs and is read by \<^verbatim>\<open>float\<close>. A number is written by
  \<^verbatim>\<open>str\<close> and read back as the same number, a missing value is written
  \<^verbatim>\<open>nan\<close> and read back as missing, an infinity is written \<^verbatim>\<open>inf\<close> or
  \<^verbatim>\<open>-inf\<close> and read back.
\<close>

definition convert_cell :: "cell \<Rightarrow> cell option" where
  "convert_cell v = (case v of Str s \<Rightarrow> py_float (rstrip_percent s) | _ \<Rightarrow> Some v)"

text \<open>The whole column is converted or, at the first text that is no number, the
  ValueError leaves the script.\<close>

fun convert_rows :: "string \<Rightarrow> row list \<Rightarrow> row list option" where
  "convert_rows col [] = Some []"
| "convert_rows col (r # rs) =
     (case convert_cell (r col) of
        None \<Rightarrow> None
      | Some v \<Rightarrow>
          (case convert_rows col rs of
             None \<Rightarrow> None
           | Some rs' \<Rightarrow> Some (r(col := v) # rs')))"

definition convert_percentage ::
  "string \<Rightarrow> frame \<times> step list \<Rightarrow> (frame \<times> step list) option" where
  "convert_percentage col st =
     (let df = fst st; steps = snd st
      in if col \<in> set (columns df) then
           (case convert_rows col (rows df) of
              None \<Rightarrow> None
            | Some rs \<Rightarrow> Some (df\<lparr>rows := rs\<rparr>, steps @ [Converted col]))
         else Some (df, steps))"

definition convert_percentages :: "frame \<times> step list \<Rightarrow> (frame \<times> step list) option" where
  "convert_percentages st =
     (case convert_percentage ''int_rate'' st of
        None \<Rightarrow> None
      | Some st' \<Rightarrow> convert_percentage ''revol_util'' st')"

subsection \<open>The cleaning steps and the report\<close>

definition removal_steps :: "frame \<Rightarrow> frame \<times> step list" where
  "removal_steps df =
     clean_key_columns (remove_duplicates (remove_high_missing (remove_empty_columns (df, []))))"

text \<open>The table that is written to \<^verbatim>\<open>cleaned_data.csv\<close> and the list
  \<^verbatim>\<open>steps\<close>; \<open>None\<close> when an exception is caught and nothing is written.\<close>

definition cleaning :: "frame \<Rightarrow> (frame \<times> step list) option" where
  "cleaning df = convert_percentages (removal_steps df)"

definition shape :: "frame \<Rightarrow> nat \<times> nat" where
  "shape df = (length (rows df), length (columns df))"

text \<open>The lines of \<^verbatim>\<open>cleaning_report.txt\<close>; \<open>now\<close> is the text of
  \<^verbatim>\<open>datetime.now().strftime('%Y-%m-%d %H:%M:%S')\<close>.\<close>

definition cleaning_report ::
  "string \<Rightarrow> nat \<times> nat \<Rightarrow> nat \<times> nat \<Rightarrow> step list \<Rightarrow> string list" where
  "cleaning_report now original_shape final_shape steps =
     [''DATA CLEANING REPORT'',
      replicate 50 CHR ''='',
      ''Date: '' @ now,
      [],
      ''SUMMARY'',
      replicate 10 CHR ''-'',
      ''Original: '' @ show_nat_commas (fst original_shape) @ '' rows, ''
         @ show_nat (snd original_shape) @ '' cols'',
      ''Final:    '' @ show_nat_commas (fst final_shape) @ '' rows, ''
         @ show_nat (snd final_shape) @ '' cols'',
      ''Reduction: '' @ show_int_commas (int (fst original_shape) - int (fst final_shape))
         @ '' rows, '' @ show_int (int (snd original_shape) - int (snd final_shape)) @ '' cols'',
      [],
      ''STEPS PERFORMED'',
      replicate 15 CHR ''-'']
     @ map (\<lambda>st. ''- '' @ render_step st) steps"

text \<open>\<^verbatim>\<open>main\<close> of data\_cleaning.py, from the table read from the raw file: the
  cleaned table and the lines of the report.\<close>

definition cleaning_main :: "string \<Rightarrow> frame \<Rightarrow> (frame \<times> string list) option" where
  "cleaning_main now df =
     (let original_shape = shape df
      in case cleaning df of
           None \<Rightarrow> None
         | Some (df', steps) \<Rightarrow>
             Some (df', cleaning_report now original_shape (shape df') steps))"

text \<open>Two states of the cleaning with the same data and the same list \<^verbatim>\<open>steps\<close>.\<close>

definition same_result :: "frame \<times> step list \<Rightarrow> frame \<times> step list \<Rightarrow> bool" where
  "same_result st st' = (same_table (fst st) (fst st') \<and> snd st = snd st')"

section \<open>Transformation: data\_transformation.py\<close>

text \<open>
  \<^verbatim>\<open>df[col] = values\<close>, where the new value of each row is computed from that row:
  a column of that name is replaced where it stands, a new column is added last.
\<close>

definition set_column :: "string \<Rightarrow> (row \<Rightarrow> cell) \<Rightarrow> frame \<Rightarrow> frame" where
  "set_column col f df =
     df\<lparr>columns := (if col \<in> set (columns df) then columns df else columns df @ [col]),
        rows := map (\<lambda>r. r(col := f r)) (rows df)\<rparr>"

text \<open>The same when computing a value can raise: the first exception leaves the
  script and no table is written.\<close>

fun compute_rows :: "string \<Rightarrow> (row \<Rightarrow> cell option) \<Rightarrow> row list \<Rightarrow> row list option" where
  "compute_rows col f [] = Some []"
| "compute_rows col f (r # rs) =
     (case f r of
        None \<Rightarrow> None
      | Some v \<Rightarrow>
          (case compute_rows col f rs of
             None \<Rightarrow> None
           | Some rs' \<Rightarrow> Some (r(col := v) # rs')))"

definition try_set_column :: "string \<Rightarrow> (row \<Rightarrow> cell option) \<Rightarrow> frame \<Rightarrow> frame option" where
  "try_set_column col f df =
     (case compute_rows col f (rows df) of
        None \<Rightarrow> None
      | Some rs \<Rightarrow>
          Some (df\<lparr>columns := (if col \<in> set (columns df) then columns df else columns df @ [col]),
                   rows := rs\<rparr>))"

text \<open>The state of \<^verbatim>\<open>main\<close>: the table and the lists \<^verbatim>\<open>transformations\<close> and
  \<^verbatim>\<open>new_features\<close>.\<close>

record tstate =
  table :: frame
  transformations :: "string list"
  new_features :: "string list"

subsection \<open>1. Target variable\<close>

definition good_loans :: "string list" where
  "good_loans = [''Fully Paid'', ''Current'']"

text \<open>\<^verbatim>\<open>isin(good_loans).astype(int)\<close> on one value.\<close>

definition is_good_loan :: "cell \<Rightarrow> cell" where
  "is_good_loan v = (case v of Str s \<Rightarrow> if s \<in> set good_loans then Num 1 else Num 0 | _ \<Rightarrow> Num 0)"

definition target_variable :: "tstate \<Rightarrow> tstate" where
  "target_variable st =
     (let df = table st
      in if ''loan_status'' \<in> set (columns df) then
           (let df' = set_column ''is_good_loan'' (\<lambda>r. is_good_loan (r ''loan_status'')) df;
                good_count = length (filter (\<lambda>r. r ''is_good_loan'' = Num 1) (rows df'));
                bad_count = int (length (rows df')) - int good_count
            in \<lparr>table = df',
                transformations = transformations st @
                  [''Target: '' @ show_nat_commas good_count @ '' good vs ''
                     @ show_int_commas bad_count @ '' bad loans''],
                new_features = new_features st @ [''is_good_loan'']\<rparr>)
         else st)"

subsection \<open>2. Risk categories\<close>

definition risk_map :: "(string \<times> string) list" where
  "risk_map = [(''A'', ''Low''), (''B'', ''Low''), (''C'', ''Medium''), (''D'', ''Medium''),
               (''E'', ''High''), (''F'', ''High''), (''G'', ''High'')]"

text \<open>\<^verbatim>\<open>Series.map(risk_map)\<close> on one value: a value that is no key of the dictionary
  becomes missing.\<close>

definition risk_category :: "cell \<Rightarrow> cell" where
  "risk_category v =
     (case v of
        Str s \<Rightarrow> (case map_of risk_map s of Some c \<Rightarrow> Str c | None \<Rightarrow> Null)
      | _ \<Rightarrow> Null)"

definition risk_categories :: "tstate \<Rightarrow> tstate" where
  "risk_categories st =
     (let df = table st
      in if ''grade'' \<in> set (columns df) then
           \<lparr>table = set_column ''risk_category'' (\<lambda>r. risk_category (r ''grade'')) df,
            transformations = transformations st @ [''Added risk categories''],
            new_features = new_features st @ [''risk_category'']\<rparr>
         else st)"

subsection \<open>3. Income ratio\<close>

text \<open>
  The division of two columns, on one row. A missing operand gives a missing result;
  a string divided raises TypeError; a number divided by zero is an infinity, and zero
  by zero is missing.
\<close>

definition num_div :: "cell \<Rightarrow> cell \<Rightarrow> cell" where
  "num_div a b =
     (case (a, b) of
        (Num x, Num y) \<Rightarrow> if y = 0 then (if x = 0 then Null else Inf (0 < x)) else Num (x / y)
      | (Num x, Inf s) \<Rightarrow> Num 0
      | (Inf s, Num y) \<Rightarrow> Inf (if y < 0 then \<not> s else s)
      | _ \<Rightarrow> Null)"

definition truediv :: "cell \<Rightarrow> cell \<Rightarrow> cell option" where
  "truediv a b =
     (if isnull a \<or> isnull b then Some Null
      else if is_str a \<or> is_str b then None
      else Some (num_div a b))"

definition income_ratio :: "tstate \<Rightarrow> tstate option" where
  "income_ratio st =
     (let df = table st
      in if ''annual_inc'' \<in> set (columns df) \<and> ''loan_amnt'' \<in> set (columns df) then
           (case try_set_column ''income_loan_ratio''
                   (\<lambda>r. truediv (r ''annual_inc'') (r ''loan_amnt'')) df of
              None \<Rightarrow> None
            | Some df' \<Rightarrow>
                Some \<lparr>table = df',
                      transformations = transformations st @ [''Added income to loan ratio''],
                      new_features = new_features st @ [''income_loan_ratio'']\<rparr>)
         else Some st)"

subsection \<open>4. Employment years\<close>

text \<open>The first match of the pattern \<^verbatim>\<open>(\d+)\<close> in a string, empty when there is
  none.\<close>

definition extract_digits :: "string \<Rightarrow> string" where
  "extract_digits s = takeWhile is_digit (dropWhile (\<lambda>c. \<not> is_digit c) s)"

text \<open>
  \<^verbatim>\<open>astype(float)\<close> reads the digits as a 64-bit float. An integer up to \<open>2 ^ 53\<close> is a
  float; a larger one is rounded to 53 significant bits, to the nearest float and to the
  even one of two that are as near, and is \<^verbatim>\<open>inf\<close> when the rounded value reaches
  \<open>2 ^ 1024\<close>.
\<close>

fun bit_length :: "nat \<Rightarrow> nat" where
  "bit_length n = (if n = 0 then 0 else Suc (bit_length (n div 2)))"

declare bit_length.simps [simp del]

definition float_of_nat :: "nat \<Rightarrow> cell" where
  "float_of_nat n =
     (if n \<le> 2 ^ 53 then Num (of_nat n)
      else
        (let e = bit_length n - 53;
             q = n div 2 ^ e;
             rest = n mod 2 ^ e;
             half = 2 ^ (e - 1);
             m = (if half < rest \<or> (rest = half \<and> odd q) then q + 1 else q)
         in if 2 ^ 1024 \<le> m * 2 ^ e then Inf True else Num (of_nat (m * 2 ^ e))))"

text \<open>\<^verbatim>\<open>str.extract('(\d+)').fillna(0).astype(float)\<close> on one value.\<close>

definition extract_years :: "cell \<Rightarrow> cell" where
  "extract_years v =
     (case v of
        Str s \<Rightarrow>
          (let ds = extract_digits s
           in if ds = [] then Num 0 else float_of_nat (nat_of_digits ds))
      | _ \<Rightarrow> Num 0)"

text \<open>\<^verbatim>\<open>str.contains('\+', na=False)\<close> on one value.\<close>

definition contains_plus :: "cell \<Rightarrow> bool" where
  "contains_plus v = (case v of Str s \<Rightarrow> CHR ''+'' \<in> set s | _ \<Rightarrow> False)"

text \<open>The accessor \<^verbatim>\<open>.str\<close> raises AttributeError on a column of numbers or of
  missing values only; a column read from a file with no row holds objects.\<close>

definition str_accessor_ok :: "frame \<Rightarrow> string \<Rightarrow> bool" where
  "str_accessor_ok df col = (rows df = [] \<or> list_ex is_str (column_values df col))"

definition employment_years :: "tstate \<Rightarrow> tstate option" where
  "employment_years st =
     (let df = table st
      in if ''emp_length'' \<in> set (columns df) then
           (if str_accessor_ok df ''emp_length'' then
              (let df1 = set_column ''emp_years'' (\<lambda>r. extract_years (r ''emp_length'')) df;
                   df2 = set_column ''emp_years''
                           (\<lambda>r. if contains_plus (r ''emp_length'') then Num 10
                                else r ''emp_years'') df1
               in Some \<lparr>table = df2,
                        transformations = transformations st
                          @ [''Converted employment length to years''],
                        new_features = new_features st @ [''emp_years'']\<rparr>)
            else None)
         else Some st)"

subsection \<open>5. Loan size categories\<close>

definition bins :: "cell list" where
  "bins = [Num 0, Num 5000, Num 15000, Num 25000, Num 35000, Inf True]"

definition labels :: "string list" where
  "labels = [''Very Small'', ''Small'', ''Medium'', ''Large'', ''Very Large'']"

text \<open>The order of numbers and infinities.\<close>

definition num_less :: "cell \<Rightarrow> cell \<Rightarrow> bool" where
  "num_less a b =
     (case (a, b) of
        (Num x, Num y) \<Rightarrow> x < y
      | (Num x, Inf s) \<Rightarrow> s
      | (Inf s, Num y) \<Rightarrow> \<not> s
      | (Inf s, Inf t) \<Rightarrow> \<not> s \<and> t
      | _ \<Rightarrow> False)"

text \<open>\<^verbatim>\<open>pd.cut(x, bins=bins, labels=labels)\<close> on one number: the intervals are open
  on the left and closed on the right, and a number in none of them becomes missing.\<close>

fun cut_value :: "cell list \<Rightarrow> string list \<Rightarrow> cell \<Rightarrow> cell" where
  "cut_value (lo # hi # bs) (l # ls) x =
     (if num_less lo x \<and> \<not> num_less hi x then Str l else cut_value (hi # bs) ls x)"
| "cut_value bs ls x = Null"

definition cut :: "cell \<Rightarrow> cell option" where
  "cut v = (case v of Null \<Rightarrow> Some Null | Str s \<Rightarrow> None | _ \<Rightarrow> Some (cut_value bins labels v))"

definition loan_size_categories :: "tstate \<Rightarrow> tstate option" where
  "loan_size_categories st =
     (let df = table st
      in if ''loan_amnt'' \<in> set (columns df) then
           (case try_set_column ''loan_size_category'' (\<lambda>r. cut (r ''loan_amnt'')) df of
              None \<Rightarrow> None
            | Some df' \<Rightarrow>
                Some \<lparr>table = df',
                      transformations = transformations st @ [''Added loan size categories''],
                      new_features = new_features st @ [''loan_size_category'']\<rparr>)
         else Some st)"

subsection \<open>The transformations and the report\<close>

definition transformation :: "frame \<Rightarrow> tstate option" where
  "transformation df =
     (let st = risk_categories
                 (target_variable \<lparr>table = df, transformations = [], new_features = []\<rparr>)
      in case income_ratio st of
           None \<Rightarrow> None
         | Some st3 \<Rightarrow>
             (case employment_years st3 of
                None \<Rightarrow> None
              | Some st4 \<Rightarrow> loan_size_categories st4))"

definition transformation_report :: "string \<Rightarrow> tstate \<Rightarrow> string list" where
  "transformation_report now st =
     [''DATA TRANSFORMATION REPORT'',
      replicate 50 CHR ''='',
      ''Date: '' @ now,
      [],
      ''TRANSFORMATIONS'',
      replicate 15 CHR ''-'']
     @ map (\<lambda>t. ''- '' @ t) (transformations st)
     @ [[], ''NEW FEATURES'', replicate 12 CHR ''-'']
     @ map (\<lambda>f. ''- '' @ f) (new_features st)
     @ [[], ''Final dataset: '' @ show_nat_commas (length (rows (table st))) @ '' rows, ''
             @ show_nat (length (columns (table st))) @ '' columns'']"

text \<open>\<^verbatim>\<open>main\<close> of data\_transformation.py, from the table read from the cleaned
  file: the processed table and the lines of the report.\<close>

definition transformation_main :: "string \<Rightarrow> frame \<Rightarrow> (frame \<times> string list) option" where
  "transformation_main now df =
     (case transformation df of
        None \<Rightarrow> None
      | Some st \<Rightarrow> Some (table st, transformation_report now st))"

subsection \<open>The transformations, row by row\<close>

text \<open>
  Every derived column is computed from values of the same row. The functions below
  say what the five steps do to one row of a table whose columns are \<open>cols\<close>; the
  lemma \<open>transformation_rowwise\<close> proves that the steps on the table do this to each
  row.
\<close>

definition row_target :: "string list \<Rightarrow> row \<Rightarrow> row" where
  "row_target cols r =
     (if ''loan_status'' \<in> set cols
      then r(''is_good_loan'' := is_good_loan (r ''loan_status'')) else r)"

definition row_risk :: "string list \<Rightarrow> row \<Rightarrow> row" where
  "row_risk cols r =
     (if ''grade'' \<in> set cols
      then r(''risk_category'' := risk_category (r ''grade'')) else r)"

definition row_ratio :: "string list \<Rightarrow> row \<Rightarrow> row option" where
  "row_ratio cols r =
     (if ''annual_inc'' \<in> set cols \<and> ''loan_amnt'' \<in> set cols
      then map_option (\<lambda>v. r(''income_loan_ratio'' := v))
             (truediv (r ''annual_inc'') (r ''loan_amnt''))
      else Some r)"

definition row_years :: "string list \<Rightarrow> row \<Rightarrow> row" where
  "row_years cols r =
     (if ''emp_length'' \<in> set cols
      then r(''emp_years'' := (if contains_plus (r ''emp_length'') then Num 10
                              else extract_years (r ''emp_length'')))
      else r)"

definition row_size :: "string list \<Rightarrow> row \<Rightarrow> row option" where
  "row_size cols r =
     (if ''loan_amnt'' \<in> set cols
      then map_option (\<lambda>v. r(''loan_size_category'' := v)) (cut (r ''loan_amnt''))
      else Some r)"

definition transform_row :: "string list \<Rightarrow> row \<Rightarrow> row option" where
  "transform_row cols r =
     (case row_ratio cols (row_risk cols (row_target cols r)) of
        None \<Rightarrow> None
      | Some r3 \<Rightarrow> row_size cols (row_years cols r3))"

definition derived_columns :: "string list" where
  "derived_columns = [''is_good_loan'', ''risk_category'', ''income_loan_ratio'',
                      ''emp_years'', ''loan_size_category'']"

section \<open>Example tables\<close>

definition cleaned_example :: frame where
  "cleaned_example =
     \<lparr>columns = [''loan_amnt'', ''term'', ''int_rate'', ''grade'', ''emp_length'',
                 ''annual_inc'', ''loan_status''],
      rows = [mk_row [(''loan_amnt'', Num 20000), (''term'', Str '' 36 months''),
                      (''int_rate'', Num (1356 / 100)), (''grade'', Str ''C''),
                      (''emp_length'', Str ''10+ years''), (''annual_inc'', Num 60000),
                      (''loan_status'', Str ''Fully Paid'')],
              mk_row [(''loan_amnt'', Num 5000), (''term'', Str '' 60 months''),
                      (''int_rate'', Num 7), (''grade'', Str ''A''),
                      (''emp_length'', Str ''< 1 year''), (''annual_inc'', Num 30000),
                      (''loan_status'', Str ''Charged Off'')]]\<rparr>"

text \<open>A column of the processed table, when the transformation returns one.\<close>

definition processed_column :: "string \<Rightarrow> frame \<Rightarrow> cell list option" where
  "processed_column col df =
     map_option (\<lambda>st. column_values (table st) col) (transformation df)"

text \<open>
  A table that already has a column of the name \<^verbatim>\<open>is_good_loan\<close>.
\<close>

definition relabelled_example :: frame where
  "relabelled_example =
     \<lparr>columns = [''loan_status'', ''is_good_loan''],
      rows = [mk_row [(''loan_status'', Str ''Charged Off''), (''is_good_loan'', Num 1)]]\<rparr>"

text \<open>
  A raw table: the column \<^verbatim>\<open>member_id\<close> is empty, the column \<^verbatim>\<open>desc\<close> has a value in
  one row of six, the second row repeats the first, and the fourth has no
  \<^verbatim>\<open>loan_amnt\<close>.
\<close>

definition raw_row :: "cell \<Rightarrow> string \<Rightarrow> string \<Rightarrow> string \<Rightarrow> string \<Rightarrow> cell \<Rightarrow> cell \<Rightarrow> row" where
  "raw_row amnt term rate grade status util desc =
     mk_row [(''loan_amnt'', amnt), (''term'', Str term), (''int_rate'', Str rate),
             (''grade'', Str grade), (''loan_status'', Str status), (''revol_util'', util),
             (''desc'', desc), (''member_id'', Null)]"

definition raw_example :: frame where
  "raw_example =
     \<lparr>columns = [''loan_amnt'', ''term'', ''int_rate'', ''grade'', ''loan_status'',
                 ''revol_util'', ''desc'', ''member_id''],
      rows = [raw_row (Num 20000) '' 36 months'' ''13.56%'' ''C'' ''Fully Paid'' (Str ''45.2%'') Null,
              raw_row (Num 20000) '' 36 months'' ''13.56%'' ''C'' ''Fully Paid'' (Str ''45.2%'') Null,
              raw_row (Num 5000) '' 60 months'' ''7%'' ''A'' ''Charged Off'' Null Null,
              raw_row Null '' 36 months'' ''9.5%'' ''B'' ''Current'' (Str ''10%'') Null,
              raw_row (Num 12000) '' 36 months'' ''11%'' ''B'' ''Current'' (Str ''30%'')
                (Str ''car''),
              raw_row (Num 8000) '' 36 months'' ''12%'' ''D'' ''Current'' (Str ''55%'') Null]\<rparr>"


text \<open>A raw table whose column \<^verbatim>\<open>note\<close> has its only value in the row that has no
  \<^verbatim>\<open>loan_amnt\<close>.\<close>

definition thin_example :: frame where
  "thin_example =
     \<lparr>columns = [''loan_amnt'', ''note''],
      rows = [mk_row [(''loan_amnt'', Null), (''note'', Str ''x'')],
              mk_row [(''loan_amnt'', Num 1000), (''note'', Null)]]\<rparr>"

text \<open>A raw table whose interest rate is a number already.\<close>

definition numeric_example :: frame where
  "numeric_example =
     \<lparr>columns = [''int_rate''], rows = [mk_row [(''int_rate'', Num (1356 / 100))]]\<rparr>"

text \<open>The cleaned table, when the cleaning returns one.\<close>

definition cleaned :: "frame \<Rightarrow> frame option" where
  "cleaned df = map_option fst (cleaning df)"

text \<open>
  A second run of the cleaning, on the file that the first run has written with
  \<^verbatim>\<open>df.to_csv(cleaned_path, index=False)\<close>. The script starts with
  \<^verbatim>\<open>pd.read_csv\<close>, and \<open>read_back\<close> is what it returns on that file: the table that
  is read, or \<open>None\<close> when reading raises, as it does on a file with no column. Reading
  chooses the type of every column again, so the table that is read is not always the
  table that was written: a column of the text \<^verbatim>\<open>5.00\<close> is read as the number 5.0.
\<close>

definition cleaned_again :: "(frame \<Rightarrow> frame option) \<Rightarrow> frame \<Rightarrow> frame option" where
  "cleaned_again read_back df =
     (case cleaned df of
        None \<Rightarrow> None
      | Some out \<Rightarrow> (case read_back out of None \<Rightarrow> None | Some df' \<Rightarrow> cleaned df'))"


text \<open>The table after each of the first four steps.\<close>

definition stage1 :: "frame \<Rightarrow> frame" where
  "stage1 df = fst (remove_empty_columns (df, []))"

definition stage2 :: "frame \<Rightarrow> frame" where
  "stage2 df = fst (remove_high_missing (remove_empty_columns (df, [])))"

definition stage3 :: "frame \<Rightarrow> frame" where
  "stage3 df = fst (remove_duplicates (remove_high_missing (remove_empty_columns (df, []))))"

definition stage4 :: "frame \<Rightarrow> frame" where
  "stage4 df = fst (removal_steps df)"

text \<open>No two rows of the list are equal on the columns.\<close>

fun distinct_rows :: "string list \<Rightarrow> row list \<Rightarrow> bool" where
  "distinct_rows cols [] = True"
| "distinct_rows cols (r # rs) = (\<not> list_ex (row_eq cols r) rs \<and> distinct_rows cols rs)"

text \<open>What the fifth step does to one row of a table whose columns are \<open>cols\<close>.\<close>

definition convert_in_row :: "string \<Rightarrow> string list \<Rightarrow> row \<Rightarrow> row option" where
  "convert_in_row col cols r =
     (if col \<in> set cols then map_option (\<lambda>v. r(col := v)) (convert_cell (r col)) else Some r)"

definition convert_row :: "string list \<Rightarrow> row \<Rightarrow> row option" where
  "convert_row cols r =
     (case convert_in_row ''int_rate'' cols r of
        None \<Rightarrow> None
      | Some r1 \<Rightarrow> convert_in_row ''revol_util'' cols r1)"


text \<open>A cleaned table with a loan of zero, a grade that is no grade, and employment
  lengths with no digit or no value.\<close>

definition varied_example :: frame where
  "varied_example =
     \<lparr>columns = [''loan_amnt'', ''grade'', ''emp_length''],
      rows = [mk_row [(''loan_amnt'', Num 0), (''grade'', Str ''F''), (''emp_length'', Str ''n/a'')],
              mk_row [(''loan_amnt'', Num 10000), (''grade'', Str ''H''), (''emp_length'', Null)],
              mk_row [(''loan_amnt'', Num 30000), (''grade'', Str ''E''),
                      (''emp_length'', Str ''3 years'')],
              mk_row [(''loan_amnt'', Num 40000), (''grade'', Str ''G''),
                      (''emp_length'', Str ''1 year'')]]\<rparr>"

text \<open>A cleaned table whose employment length is a text with a run of twenty digits.\<close>

definition long_example :: frame where
  "long_example =
     \<lparr>columns = [''emp_length''],
      rows = [mk_row [(''emp_length'', Str ''12345678901234567890 years'')]]\<rparr>"

section \<open>The transformation, step by step\<close>


lemma compute_rows_Some:
  "compute_rows col f rs = Some rs' \<longleftrightarrow>
     list_all2 (\<lambda>r r'. \<exists>v. f r = Some v \<and> r' = r(col := v)) rs rs'"
proof (induction rs arbitrary: rs')
  case Nil
  then show ?case by auto
next
  case (Cons r rs)
  show ?case
  proof (cases rs')
    case Nil
    then show ?thesis by (simp split: option.splits)
  next
    case (Cons r' rs'')
    show ?thesis
    proof (cases "f r")
      case None
      then show ?thesis by (simp add: Cons)
    next
      case (Some v)
      show ?thesis
      proof (cases "compute_rows col f rs")
        case None
        with Cons.IH [of rs''] Some Cons show ?thesis by auto
      next
        case (Some ys)
        with Cons.IH [of rs''] Cons.IH [of ys] \<open>f r = Some v\<close> Cons show ?thesis by auto
      qed
    qed
  qed
qed

lemma set_column_twice:
  "set_column col g (set_column col f df) = set_column col (\<lambda>r. g (r(col := f r))) df"
  by (simp add: set_column_def o_def)

lemma set_column_rows: "rows (set_column col f df) = map (\<lambda>r. r(col := f r)) (rows df)"
  by (simp add: set_column_def)

lemma set_column_columns:
  "columns (set_column col f df) =
     (if col \<in> set (columns df) then columns df else columns df @ [col])"
  by (simp add: set_column_def)

lemma try_set_column_Some:
  assumes "try_set_column col f df = Some df'"
  shows "list_all2 (\<lambda>r r'. \<exists>v. f r = Some v \<and> r' = r(col := v)) (rows df) (rows df')"
    and "columns df' = (if col \<in> set (columns df) then columns df else columns df @ [col])"
  using assms by (auto simp: try_set_column_def compute_rows_Some split: option.splits)

lemma row_fun:
  "row_target cols = (\<lambda>r. if ''loan_status'' \<in> set cols
      then r(''is_good_loan'' := is_good_loan (r ''loan_status'')) else r)"
  "row_risk cols = (\<lambda>r. if ''grade'' \<in> set cols
      then r(''risk_category'' := risk_category (r ''grade'')) else r)"
  "row_years cols = (\<lambda>r. if ''emp_length'' \<in> set cols
      then r(''emp_years'' := (if contains_plus (r ''emp_length'') then Num 10
                              else extract_years (r ''emp_length'')))
      else r)"
  by (rule ext, simp add: row_target_def row_risk_def row_years_def)+

text \<open>What one step does to the rows and to the columns of the table.\<close>

lemma target_variable_table:
  "rows (table (target_variable st)) = map (row_target (columns (table st))) (rows (table st))"
  "columns (table (target_variable st)) =
     (if ''loan_status'' \<in> set (columns (table st)) \<and> ''is_good_loan'' \<notin> set (columns (table st))
      then columns (table st) @ [''is_good_loan''] else columns (table st))"
  by (simp_all add: target_variable_def Let_def set_column_def row_fun)

lemma risk_categories_table:
  "rows (table (risk_categories st)) = map (row_risk (columns (table st))) (rows (table st))"
  "columns (table (risk_categories st)) =
     (if ''grade'' \<in> set (columns (table st)) \<and> ''risk_category'' \<notin> set (columns (table st))
      then columns (table st) @ [''risk_category''] else columns (table st))"
  by (simp_all add: risk_categories_def Let_def set_column_def row_fun)

lemma income_ratio_table:
  assumes "income_ratio st = Some st'"
  shows "list_all2 (\<lambda>r r'. row_ratio (columns (table st)) r = Some r')
           (rows (table st)) (rows (table st'))"
    and "columns (table st') =
     (if ''annual_inc'' \<in> set (columns (table st)) \<and> ''loan_amnt'' \<in> set (columns (table st))
         \<and> ''income_loan_ratio'' \<notin> set (columns (table st))
      then columns (table st) @ [''income_loan_ratio''] else columns (table st))"
proof -
  show "list_all2 (\<lambda>r r'. row_ratio (columns (table st)) r = Some r')
           (rows (table st)) (rows (table st'))"
  proof (cases "''annual_inc'' \<in> set (columns (table st)) \<and> ''loan_amnt'' \<in> set (columns (table st))")
    case True
    with assms obtain df' where
      d: "try_set_column ''income_loan_ratio''
            (\<lambda>r. truediv (r ''annual_inc'') (r ''loan_amnt'')) (table st) = Some df'"
      and t: "table st' = df'"
      by (auto simp: income_ratio_def Let_def split: option.splits)
    from try_set_column_Some(1) [OF d] True t show ?thesis
      by (auto simp: row_ratio_def elim!: list_all2_mono)
  next
    case False
    with assms have "st' = st" by (auto simp: income_ratio_def Let_def)
    with False show ?thesis by (auto simp: row_ratio_def list_all2_same)
  qed
  show "columns (table st') =
     (if ''annual_inc'' \<in> set (columns (table st)) \<and> ''loan_amnt'' \<in> set (columns (table st))
         \<and> ''income_loan_ratio'' \<notin> set (columns (table st))
      then columns (table st) @ [''income_loan_ratio''] else columns (table st))"
    using assms
    by (auto simp: income_ratio_def Let_def try_set_column_def split: option.splits if_splits)
qed

lemma employment_years_table:
  assumes "employment_years st = Some st'"
  shows "rows (table st') = map (row_years (columns (table st))) (rows (table st))"
    and "columns (table st') =
     (if ''emp_length'' \<in> set (columns (table st)) \<and> ''emp_years'' \<notin> set (columns (table st))
      then columns (table st) @ [''emp_years''] else columns (table st))"
  using assms
  by (auto simp: employment_years_def Let_def set_column_twice set_column_def row_fun
      split: if_splits cong: if_cong)

lemma loan_size_categories_table:
  assumes "loan_size_categories st = Some st'"
  shows "list_all2 (\<lambda>r r'. row_size (columns (table st)) r = Some r')
           (rows (table st)) (rows (table st'))"
    and "columns (table st') =
     (if ''loan_amnt'' \<in> set (columns (table st)) \<and> ''loan_size_category'' \<notin> set (columns (table st))
      then columns (table st) @ [''loan_size_category''] else columns (table st))"
proof -
  show "list_all2 (\<lambda>r r'. row_size (columns (table st)) r = Some r')
           (rows (table st)) (rows (table st'))"
  proof (cases "''loan_amnt'' \<in> set (columns (table st))")
    case True
    with assms obtain df' where
      d: "try_set_column ''loan_size_category'' (\<lambda>r. cut (r ''loan_amnt'')) (table st) = Some df'"
      and t: "table st' = df'"
      by (auto simp: loan_size_categories_def Let_def split: option.splits)
    from try_set_column_Some(1) [OF d] True t show ?thesis
      by (auto simp: row_size_def elim!: list_all2_mono)
  next
    case False
    with assms have "st' = st" by (auto simp: loan_size_categories_def Let_def)
    with False show ?thesis by (auto simp: row_size_def list_all2_same)
  qed
  show "columns (table st') =
     (if ''loan_amnt'' \<in> set (columns (table st)) \<and> ''loan_size_category'' \<notin> set (columns (table st))
      then columns (table st) @ [''loan_size_category''] else columns (table st))"
    using assms
    by (auto simp: loan_size_categories_def Let_def try_set_column_def
        split: option.splits if_splits)
qed


lemma transformation_steps:
  assumes "transformation df = Some st"
  obtains st3 st4 where
    "income_ratio (risk_categories (target_variable
        \<lparr>table = df, transformations = [], new_features = []\<rparr>)) = Some st3"
    "employment_years st3 = Some st4"
    "loan_size_categories st4 = Some st"
  using assms by (auto simp: transformation_def Let_def split: option.splits)

lemma transformation_rowwise:
  assumes "transformation df = Some st"
  shows "list_all2 (\<lambda>r r'. transform_row (columns df) r = Some r') (rows df) (rows (table st))"
proof -
  define st0 where "st0 = \<lparr>table = df, transformations = [], new_features = []\<rparr>"
  define st1 where "st1 = target_variable st0"
  define st2 where "st2 = risk_categories st1"
  from transformation_steps [OF assms] obtain st3 st4 where
    s3: "income_ratio st2 = Some st3" and s4: "employment_years st3 = Some st4"
    and s5: "loan_size_categories st4 = Some st"
    unfolding st0_def st1_def st2_def by blast
  let ?cols = "columns df"
  have c1: "columns (table st1) =
      (if ''loan_status'' \<in> set ?cols \<and> ''is_good_loan'' \<notin> set ?cols
       then ?cols @ [''is_good_loan''] else ?cols)"
    by (simp add: st1_def st0_def target_variable_table)
  have m1: "row_risk (columns (table st1)) = row_risk ?cols"
    by (rule ext) (simp add: c1 row_risk_def)
  have c2: "set (columns (table st2)) \<subseteq> set ?cols \<union> {''is_good_loan'', ''risk_category''}"
    "set ?cols \<subseteq> set (columns (table st2))"
    by (auto simp: st2_def risk_categories_table c1 split: if_splits)
  have m2: "row_ratio (columns (table st2)) = row_ratio ?cols"
    using c2 by (intro ext) (auto simp: row_ratio_def)
  have c3: "set (columns (table st3))
      \<subseteq> set ?cols \<union> {''is_good_loan'', ''risk_category'', ''income_loan_ratio''}"
    "set ?cols \<subseteq> set (columns (table st3))"
    using c2 by (auto simp: income_ratio_table(2) [OF s3] split: if_splits)
  have m3: "row_years (columns (table st3)) = row_years ?cols"
    using c3 by (intro ext) (auto simp: row_years_def)
  have c4: "set (columns (table st4))
      \<subseteq> set ?cols \<union> {''is_good_loan'', ''risk_category'', ''income_loan_ratio'', ''emp_years''}"
    "set ?cols \<subseteq> set (columns (table st4))"
    using c3 by (auto simp: employment_years_table(2) [OF s4] split: if_splits)
  have m4: "row_size (columns (table st4)) = row_size ?cols"
    using c4 by (intro ext) (auto simp: row_size_def)
  have r2: "rows (table st2) = map (\<lambda>r. row_risk ?cols (row_target ?cols r)) (rows df)"
    by (simp add: st2_def risk_categories_table m1) (simp add: st1_def st0_def target_variable_table)
  have r3: "list_all2 (\<lambda>r r'. row_ratio ?cols r = Some r') (rows (table st2)) (rows (table st3))"
    using income_ratio_table(1) [OF s3] by (simp add: m2)
  have r4: "rows (table st4) = map (row_years ?cols) (rows (table st3))"
    using employment_years_table(1) [OF s4] by (simp add: m3)
  have r5: "list_all2 (\<lambda>r r'. row_size ?cols r = Some r') (rows (table st4)) (rows (table st))"
    using loan_size_categories_table(1) [OF s5] by (simp add: m4)
  from r3 have l3: "length (rows (table st3)) = length (rows df)"
    by (simp add: r2 list_all2_lengthD [symmetric])
  from r5 have l5: "length (rows (table st)) = length (rows df)"
    using l3 by (simp add: r4 list_all2_lengthD [symmetric])
  show ?thesis
  proof (rule list_all2_all_nthI)
    show "length (rows df) = length (rows (table st))" by (simp add: l5)
  next
    fix i assume i: "i < length (rows df)"
    from r3 i have "row_ratio ?cols (row_risk ?cols (row_target ?cols (rows df ! i)))
        = Some (rows (table st3) ! i)"
      by (simp add: r2 list_all2_conv_all_nth)
    moreover from r5 i l3 have "row_size ?cols (row_years ?cols (rows (table st3) ! i))
        = Some (rows (table st) ! i)"
      by (simp add: r4 list_all2_conv_all_nth)
    ultimately show "transform_row ?cols (rows df ! i) = Some (rows (table st) ! i)"
      by (simp add: transform_row_def)
  qed
qed

lemma transformation_columns:
  assumes "transformation df = Some st"
  shows "\<exists>new. columns (table st) = columns df @ new \<and> set new \<subseteq> set derived_columns"
proof -
  define st0 where "st0 = \<lparr>table = df, transformations = [], new_features = []\<rparr>"
  define st1 where "st1 = target_variable st0"
  define st2 where "st2 = risk_categories st1"
  from transformation_steps [OF assms] obtain st3 st4 where
    s3: "income_ratio st2 = Some st3" and s4: "employment_years st3 = Some st4"
    and s5: "loan_size_categories st4 = Some st"
    unfolding st0_def st1_def st2_def by blast
  have "\<exists>n1. columns (table st1) = columns df @ n1 \<and> set n1 \<subseteq> set derived_columns"
    by (simp add: st1_def st0_def target_variable_table derived_columns_def)
  then obtain n1 where n1: "columns (table st1) = columns df @ n1" "set n1 \<subseteq> set derived_columns"
    by blast
  have "\<exists>n2. columns (table st2) = columns (table st1) @ n2 \<and> set n2 \<subseteq> set derived_columns"
    by (simp add: st2_def risk_categories_table derived_columns_def)
  then obtain n2 where n2: "columns (table st2) = columns (table st1) @ n2"
    "set n2 \<subseteq> set derived_columns" by blast
  have "\<exists>n3. columns (table st3) = columns (table st2) @ n3 \<and> set n3 \<subseteq> set derived_columns"
    by (simp add: income_ratio_table(2) [OF s3] derived_columns_def)
  then obtain n3 where n3: "columns (table st3) = columns (table st2) @ n3"
    "set n3 \<subseteq> set derived_columns" by blast
  have "\<exists>n4. columns (table st4) = columns (table st3) @ n4 \<and> set n4 \<subseteq> set derived_columns"
    by (simp add: employment_years_table(2) [OF s4] derived_columns_def)
  then obtain n4 where n4: "columns (table st4) = columns (table st3) @ n4"
    "set n4 \<subseteq> set derived_columns" by blast
  have "\<exists>n5. columns (table st) = columns (table st4) @ n5 \<and> set n5 \<subseteq> set derived_columns"
    by (simp add: loan_size_categories_table(2) [OF s5] derived_columns_def)
  then obtain n5 where n5: "columns (table st) = columns (table st4) @ n5"
    "set n5 \<subseteq> set derived_columns" by blast
  have "columns (table st) = columns df @ (n1 @ n2 @ n3 @ n4 @ n5)"
    by (simp add: n1 n2 n3 n4 n5)
  moreover have "set (n1 @ n2 @ n3 @ n4 @ n5) \<subseteq> set derived_columns"
    using n1 n2 n3 n4 n5 by simp
  ultimately show ?thesis by blast
qed


lemmas transformation_defs =
  transformation_def target_variable_def risk_categories_def income_ratio_def
  employment_years_def loan_size_categories_def set_column_def try_set_column_def
  str_accessor_ok_def column_values_def

lemmas cell_defs =
  mk_row_def is_good_loan_def good_loans_def risk_category_def risk_map_def truediv_def
  num_div_def isnull_def is_str_def extract_years_def extract_digits_def contains_plus_def
  is_digit_def nat_of_digits_def digit_val_def float_of_nat_def cut_def bins_def labels_def
  num_less_def


lemma cleaned_example_transforms: "transformation_main now cleaned_example \<noteq> None"
  by (simp add: transformation_main_def cleaned_example_def transformation_defs cell_defs Let_def)

lemma transformation_adds:
  assumes "transformation df = Some st"
  shows "''loan_status'' \<in> set (columns df) \<Longrightarrow> ''is_good_loan'' \<in> set (columns (table st))"
    and "''grade'' \<in> set (columns df) \<Longrightarrow> ''risk_category'' \<in> set (columns (table st))"
    and "''emp_length'' \<in> set (columns df) \<Longrightarrow> ''emp_years'' \<in> set (columns (table st))"
    and "''loan_amnt'' \<in> set (columns df) \<Longrightarrow> ''loan_size_category'' \<in> set (columns (table st))"
proof -
  define st0 where "st0 = \<lparr>table = df, transformations = [], new_features = []\<rparr>"
  define st1 where "st1 = target_variable st0"
  define st2 where "st2 = risk_categories st1"
  from transformation_steps [OF assms] obtain st3 st4 where
    s3: "income_ratio st2 = Some st3" and s4: "employment_years st3 = Some st4"
    and s5: "loan_size_categories st4 = Some st"
    unfolding st0_def st1_def st2_def by blast
  have a1: "set (columns df) \<subseteq> set (columns (table st1))"
    by (auto simp: st1_def st0_def target_variable_table)
  have a2: "set (columns (table st1)) \<subseteq> set (columns (table st2))"
    by (auto simp: st2_def risk_categories_table)
  have a3: "set (columns (table st2)) \<subseteq> set (columns (table st3))"
    by (auto simp: income_ratio_table(2) [OF s3])
  have a4: "set (columns (table st3)) \<subseteq> set (columns (table st4))"
    by (auto simp: employment_years_table(2) [OF s4])
  have a5: "set (columns (table st4)) \<subseteq> set (columns (table st))"
    by (auto simp: loan_size_categories_table(2) [OF s5])
  show "''is_good_loan'' \<in> set (columns (table st))" if "''loan_status'' \<in> set (columns df)"
  proof -
    from that have "''is_good_loan'' \<in> set (columns (table st1))"
      by (simp add: st1_def st0_def target_variable_table)
    with a2 a3 a4 a5 show ?thesis by blast
  qed
  show "''risk_category'' \<in> set (columns (table st))" if "''grade'' \<in> set (columns df)"
  proof -
    from that a1 have "''grade'' \<in> set (columns (table st1))" by blast
    then have "''risk_category'' \<in> set (columns (table st2))"
      by (simp add: st2_def risk_categories_table)
    with a3 a4 a5 show ?thesis by blast
  qed
  show "''emp_years'' \<in> set (columns (table st))" if "''emp_length'' \<in> set (columns df)"
  proof -
    from that a1 a2 a3 have "''emp_length'' \<in> set (columns (table st3))" by blast
    then have "''emp_years'' \<in> set (columns (table st4))"
      by (simp add: employment_years_table(2) [OF s4])
    with a5 show ?thesis by blast
  qed
  show "''loan_size_category'' \<in> set (columns (table st))" if "''loan_amnt'' \<in> set (columns df)"
  proof -
    from that a1 a2 a3 a4 have "''loan_amnt'' \<in> set (columns (table st4))" by blast
    then show ?thesis
      by (simp add: loan_size_categories_table(2) [OF s5])
  qed
qed

lemma transformation_main_Some:
  assumes "transformation_main now df = Some (out, report)"
  shows "\<exists>st. transformation df = Some st \<and> out = table st"
  using assms by (auto simp: transformation_main_def split: option.splits)

lemma processed_row:
  assumes "transformation_main now df = Some (out, report)" and "r' \<in> set (rows out)"
  shows "\<exists>r\<in>set (rows df). transform_row (columns df) r = Some r'"
proof -
  from transformation_main_Some [OF assms(1)] obtain st where
    st: "transformation df = Some st" and out: "out = table st" by blast
  from assms(2) obtain i where i: "i < length (rows out)" and r': "r' = rows out ! i"
    by (auto simp: in_set_conv_nth)
  from transformation_rowwise [OF st] out
  have l: "list_all2 (\<lambda>r r'. transform_row (columns df) r = Some r') (rows df) (rows out)"
    by simp
  then have len: "length (rows df) = length (rows out)" by (rule list_all2_lengthD)
  from l i len have "transform_row (columns df) (rows df ! i) = Some r'"
    by (simp add: list_all2_conv_all_nth r')
  moreover from i len have "rows df ! i \<in> set (rows df)" by simp
  ultimately show ?thesis by blast
qed

lemma transform_row_keeps:
  assumes "transform_row cols r = Some r'" and "c \<notin> set derived_columns"
  shows "r' c = r c"
  using assms
  by (auto simp: transform_row_def row_target_def row_risk_def row_ratio_def row_years_def
      row_size_def derived_columns_def split: option.splits if_splits)

lemma transform_row_target:
  assumes "transform_row cols r = Some r'" and "''loan_status'' \<in> set cols"
  shows "r' ''is_good_loan'' = is_good_loan (r ''loan_status'')"
  using assms
  by (auto simp: transform_row_def row_target_def row_risk_def row_ratio_def row_years_def
      row_size_def split: option.splits if_splits)

lemma transform_row_risk:
  assumes "transform_row cols r = Some r'" and "''grade'' \<in> set cols"
  shows "r' ''risk_category'' = risk_category (r ''grade'')"
  using assms
  by (auto simp: transform_row_def row_target_def row_risk_def row_ratio_def row_years_def
      row_size_def split: option.splits if_splits)

lemma transform_row_years:
  assumes "transform_row cols r = Some r'" and "''emp_length'' \<in> set cols"
  shows "r' ''emp_years'' =
    (if contains_plus (r ''emp_length'') then Num 10 else extract_years (r ''emp_length''))"
  using assms
  by (auto simp: transform_row_def row_target_def row_risk_def row_ratio_def row_years_def
      row_size_def split: option.splits if_splits)

lemma transform_row_size:
  assumes "transform_row cols r = Some r'" and "''loan_amnt'' \<in> set cols"
  shows "cut (r ''loan_amnt'') = Some (r' ''loan_size_category'')"
  using assms
  by (auto simp: transform_row_def row_target_def row_risk_def row_ratio_def row_years_def
      row_size_def split: option.splits if_splits)

lemma varied_example_transforms: "transformation_main now varied_example \<noteq> None"
  by (simp add: transformation_main_def varied_example_def transformation_defs cell_defs Let_def)

lemma varied_example_rows:
  assumes "transformation_main now varied_example = Some (out, report)"
  shows "length (rows out) = 4"
    and "map (\<lambda>r. r ''loan_amnt'') (rows out) = [Num 0, Num 10000, Num 30000, Num 40000]"
    and "map (\<lambda>r. r ''grade'') (rows out) = [Str ''F'', Str ''H'', Str ''E'', Str ''G'']"
    and "map (\<lambda>r. r ''emp_length'') (rows out)
           = [Str ''n/a'', Null, Str ''3 years'', Str ''1 year'']"
proof -
  from assms have out: "out = fst (the (transformation_main now varied_example))" by simp
  show "length (rows out) = 4"
    and "map (\<lambda>r. r ''loan_amnt'') (rows out) = [Num 0, Num 10000, Num 30000, Num 40000]"
    and "map (\<lambda>r. r ''grade'') (rows out) = [Str ''F'', Str ''H'', Str ''E'', Str ''G'']"
    and "map (\<lambda>r. r ''emp_length'') (rows out)
           = [Str ''n/a'', Null, Str ''3 years'', Str ''1 year'']"
    unfolding out
    by (simp_all add: transformation_main_def varied_example_def transformation_defs cell_defs
        Let_def)
qed

lemma map_nth_eq: "map f xs = ys \<Longrightarrow> i < length ys \<Longrightarrow> f (xs ! i) = ys ! i"
  by (metis length_map nth_map)

section \<open>The derived columns\<close>

text \<open>
  Claim C1. When the cleaned table has the column \<^verbatim>\<open>loan_status\<close>, the processed table
  has the column \<^verbatim>\<open>is_good_loan\<close>, and in each of its rows \<^verbatim>\<open>is_good_loan\<close> is 1
  exactly when \<^verbatim>\<open>loan_status\<close> is "Fully Paid" or "Current", is 0 otherwise, and has
  no other value.
\<close>

theorem C1_is_good_loan:
  assumes "transformation_main now df = Some (out, report)"
    and "''loan_status'' \<in> set (columns df)"
    and "r \<in> set (rows out)"
  shows "''is_good_loan'' \<in> set (columns out) \<and>
         (r ''is_good_loan'' = Num 1 \<longleftrightarrow>
            r ''loan_status'' = Str ''Fully Paid'' \<or> r ''loan_status'' = Str ''Current'') \<and>
         (\<not> (r ''loan_status'' = Str ''Fully Paid'' \<or> r ''loan_status'' = Str ''Current'')
            \<longrightarrow> r ''is_good_loan'' = Num 0) \<and>
         (r ''is_good_loan'' = Num 0 \<or> r ''is_good_loan'' = Num 1)"
proof -
  from transformation_main_Some [OF assms(1)] obtain st where
    st: "transformation df = Some st" and out: "out = table st" by blast
  from processed_row [OF assms(1,3)] obtain r0 where
    r0: "transform_row (columns df) r0 = Some r" by blast
  have status: "r ''loan_status'' = r0 ''loan_status''"
    by (rule transform_row_keeps [OF r0]) (simp add: derived_columns_def)
  have good: "r ''is_good_loan'' = is_good_loan (r ''loan_status'')"
    using transform_row_target [OF r0 assms(2)] status by simp
  have col: "''is_good_loan'' \<in> set (columns out)"
    using transformation_adds(1) [OF st assms(2)] out by simp
  show ?thesis
    using col good
    by (cases "r ''loan_status''") (auto simp: is_good_loan_def good_loans_def)
qed

text \<open>On the example table the first loan is fully paid and the second is charged off.\<close>

theorem C1_is_good_loan_witness:
  "\<exists>out report.
     transformation_main ''2024-01-01 00:00:00'' cleaned_example = Some (out, report) \<and>
     ''loan_status'' \<in> set (columns cleaned_example) \<and>
     hd (rows out) \<in> set (rows out) \<and> last (rows out) \<in> set (rows out) \<and>
     ''is_good_loan'' \<in> set (columns out) \<and>
     hd (rows out) ''loan_status'' = Str ''Fully Paid'' \<and> hd (rows out) ''is_good_loan'' = Num 1 \<and>
     last (rows out) ''loan_status'' = Str ''Charged Off'' \<and> last (rows out) ''is_good_loan'' = Num 0"
proof -
  let ?now = "''2024-01-01 00:00:00''"
  obtain out report where run: "transformation_main ?now cleaned_example = Some (out, report)"
    using cleaned_example_transforms [of ?now] by (cases "transformation_main ?now cleaned_example") auto
  have cols: "''loan_status'' \<in> set (columns cleaned_example)"
    by (simp add: cleaned_example_def)
  from run have out: "out = fst (the (transformation_main ?now cleaned_example))" by simp
  have hd_status: "hd (rows out) ''loan_status'' = Str ''Fully Paid''"
    and last_status: "last (rows out) ''loan_status'' = Str ''Charged Off''"
    and ne: "rows out \<noteq> []"
    unfolding out
    by (simp_all add: transformation_main_def cleaned_example_def transformation_defs cell_defs
        Let_def)
  from ne have mem: "hd (rows out) \<in> set (rows out)" "last (rows out) \<in> set (rows out)"
    by simp_all
  from C1_is_good_loan [OF run cols mem(1)] hd_status
  have first: "''is_good_loan'' \<in> set (columns out)" "hd (rows out) ''is_good_loan'' = Num 1"
    by simp_all
  from C1_is_good_loan [OF run cols mem(2)] last_status
  have second: "last (rows out) ''is_good_loan'' = Num 0" by simp
  from run cols mem first second hd_status last_status show ?thesis by blast
qed

text \<open>
  Claim C2. When the cleaned table has the column \<^verbatim>\<open>grade\<close>, the processed table has
  the column \<^verbatim>\<open>risk_category\<close>, and in each of its rows it is "Low" for the grades A
  and B, "Medium" for C and D, "High" for E, F and G, and missing for every other value
  of \<^verbatim>\<open>grade\<close>.
\<close>

theorem C2_risk_category:
  assumes "transformation_main now df = Some (out, report)"
    and "''grade'' \<in> set (columns df)"
    and "r \<in> set (rows out)"
  shows "''risk_category'' \<in> set (columns out) \<and>
         (r ''grade'' = Str ''A'' \<or> r ''grade'' = Str ''B''
            \<longrightarrow> r ''risk_category'' = Str ''Low'') \<and>
         (r ''grade'' = Str ''C'' \<or> r ''grade'' = Str ''D''
            \<longrightarrow> r ''risk_category'' = Str ''Medium'') \<and>
         (r ''grade'' = Str ''E'' \<or> r ''grade'' = Str ''F'' \<or> r ''grade'' = Str ''G''
            \<longrightarrow> r ''risk_category'' = Str ''High'') \<and>
         (r ''grade'' \<notin> Str ` {''A'', ''B'', ''C'', ''D'', ''E'', ''F'', ''G''}
            \<longrightarrow> r ''risk_category'' = Null)"
proof -
  from transformation_main_Some [OF assms(1)] obtain st where
    st: "transformation df = Some st" and out: "out = table st" by blast
  from processed_row [OF assms(1,3)] obtain r0 where
    r0: "transform_row (columns df) r0 = Some r" by blast
  have grade: "r ''grade'' = r0 ''grade''"
    by (rule transform_row_keeps [OF r0]) (simp add: derived_columns_def)
  have risk: "r ''risk_category'' = risk_category (r ''grade'')"
    using transform_row_risk [OF r0 assms(2)] grade by simp
  have col: "''risk_category'' \<in> set (columns out)"
    using transformation_adds(2) [OF st assms(2)] out by simp
  show ?thesis
    using col risk
    by (cases "r ''grade''") (auto simp: risk_category_def risk_map_def)
qed

text \<open>
  On the example table the first loan has grade C and the second grade A; on the second
  example table the first loan has grade F and the second the grade H, which is none.
\<close>

theorem C2_risk_category_witness:
  "(\<exists>out report.
     transformation_main ''2024-01-01 00:00:00'' cleaned_example = Some (out, report) \<and>
     ''grade'' \<in> set (columns cleaned_example) \<and>
     hd (rows out) \<in> set (rows out) \<and> last (rows out) \<in> set (rows out) \<and>
     ''risk_category'' \<in> set (columns out) \<and>
     hd (rows out) ''grade'' = Str ''C'' \<and> hd (rows out) ''risk_category'' = Str ''Medium'' \<and>
     last (rows out) ''grade'' = Str ''A'' \<and> last (rows out) ''risk_category'' = Str ''Low'') \<and>
   (\<exists>out report.
     transformation_main ''2024-01-01 00:00:00'' varied_example = Some (out, report) \<and>
     rows out ! 0 \<in> set (rows out) \<and> rows out ! 1 \<in> set (rows out) \<and>
     (rows out ! 0) ''grade'' = Str ''F'' \<and> (rows out ! 0) ''risk_category'' = Str ''High'' \<and>
     (rows out ! 1) ''grade'' = Str ''H'' \<and> (rows out ! 1) ''risk_category'' = Null)"
proof (intro conjI)
  let ?now = "''2024-01-01 00:00:00''"
  obtain out report where run: "transformation_main ?now cleaned_example = Some (out, report)"
    using cleaned_example_transforms [of ?now]
    by (cases "transformation_main ?now cleaned_example") auto
  have cols: "''grade'' \<in> set (columns cleaned_example)"
    by (simp add: cleaned_example_def)
  from run have out: "out = fst (the (transformation_main ?now cleaned_example))" by simp
  have hd_grade: "hd (rows out) ''grade'' = Str ''C''"
    and last_grade: "last (rows out) ''grade'' = Str ''A''"
    and ne: "rows out \<noteq> []"
    unfolding out
    by (simp_all add: transformation_main_def cleaned_example_def transformation_defs cell_defs
        Let_def)
  from ne have mem: "hd (rows out) \<in> set (rows out)" "last (rows out) \<in> set (rows out)"
    by simp_all
  from C2_risk_category [OF run cols mem(1)] hd_grade
  have first: "''risk_category'' \<in> set (columns out)"
    "hd (rows out) ''risk_category'' = Str ''Medium''"
    by simp_all
  from C2_risk_category [OF run cols mem(2)] last_grade
  have second: "last (rows out) ''risk_category'' = Str ''Low''" by simp
  from run cols mem first second hd_grade last_grade show "\<exists>out report.
     transformation_main ''2024-01-01 00:00:00'' cleaned_example = Some (out, report) \<and>
     ''grade'' \<in> set (columns cleaned_example) \<and>
     hd (rows out) \<in> set (rows out) \<and> last (rows out) \<in> set (rows out) \<and>
     ''risk_category'' \<in> set (columns out) \<and>
     hd (rows out) ''grade'' = Str ''C'' \<and> hd (rows out) ''risk_category'' = Str ''Medium'' \<and>
     last (rows out) ''grade'' = Str ''A'' \<and> last (rows out) ''risk_category'' = Str ''Low''"
    by blast
next
  let ?now = "''2024-01-01 00:00:00''"
  obtain out report where run: "transformation_main ?now varied_example = Some (out, report)"
    using varied_example_transforms [of ?now]
    by (cases "transformation_main ?now varied_example") auto
  have cols: "''grade'' \<in> set (columns varied_example)"
    by (simp add: varied_example_def)
  note v = varied_example_rows [OF run]
  from v(1) have mem: "rows out ! 0 \<in> set (rows out)" "rows out ! 1 \<in> set (rows out)"
    by simp_all
  from map_nth_eq [OF v(3), of 0] map_nth_eq [OF v(3), of 1]
  have g: "(rows out ! 0) ''grade'' = Str ''F''" "(rows out ! 1) ''grade'' = Str ''H''"
    by simp_all
  from C2_risk_category [OF run cols mem(1)] g(1)
  have first: "(rows out ! 0) ''risk_category'' = Str ''High''" by simp
  from C2_risk_category [OF run cols mem(2)] g(2)
  have second: "(rows out ! 1) ''risk_category'' = Null" by simp
  from run mem g first second show "\<exists>out report.
     transformation_main ''2024-01-01 00:00:00'' varied_example = Some (out, report) \<and>
     rows out ! 0 \<in> set (rows out) \<and> rows out ! 1 \<in> set (rows out) \<and>
     (rows out ! 0) ''grade'' = Str ''F'' \<and> (rows out ! 0) ''risk_category'' = Str ''High'' \<and>
     (rows out ! 1) ''grade'' = Str ''H'' \<and> (rows out ! 1) ''risk_category'' = Null"
    by blast
qed

text \<open>
  The first match of \<^verbatim>\<open>(\d+)\<close> is the first maximal run of digits of the string.
\<close>

lemma extract_digits_first:
  assumes "s = pre @ ds @ post" and "\<not> list_ex is_digit pre" and "ds \<noteq> []"
    and "list_all is_digit ds" and "post = [] \<or> \<not> is_digit (hd post)"
  shows "extract_digits s = ds"
proof -
  from assms(2) have "dropWhile (\<lambda>c. \<not> is_digit c) (pre @ ds @ post)
      = dropWhile (\<lambda>c. \<not> is_digit c) (ds @ post)"
    by (intro dropWhile_append2) (auto simp: list_ex_iff)
  also from assms(3,4) have "\<dots> = ds @ post"
    by (cases ds) simp_all
  finally have d: "dropWhile (\<lambda>c. \<not> is_digit c) s = ds @ post" by (simp add: assms(1))
  from assms(4) have "takeWhile is_digit (ds @ post) = ds @ takeWhile is_digit post"
    by (intro takeWhile_append2) (auto simp: list_all_iff)
  also from assms(5) have "takeWhile is_digit post = []"
    by (cases post) auto
  finally show ?thesis by (simp add: extract_digits_def d)
qed

lemma extract_digits_none:
  assumes "\<not> list_ex is_digit s"
  shows "extract_digits s = []"
proof -
  from assms have "\<forall>c\<in>set s. \<not> is_digit c" by (simp add: list_ex_iff)
  then have "dropWhile (\<lambda>c. \<not> is_digit c) s = []"
    by (simp add: dropWhile_eq_Nil_conv)
  then show ?thesis unfolding extract_digits_def by (simp only: takeWhile.simps)
qed

text \<open>
  The number read from a run of digits is the decimal value of its characters: the
  character \<open>0\<close> has the code 48.
\<close>

lemma digit_val_char:
  assumes "c \<in> set ''0123456789''"
  shows "digit_val c = of_char c - 48"
  using assms by (auto simp: digit_val_def)

lemma nat_of_digits_snoc: "nat_of_digits (ds @ [c]) = 10 * nat_of_digits ds + digit_val c"
  by (simp add: nat_of_digits_def)

lemma nat_of_digits_sum:
  assumes "set ds \<subseteq> set ''0123456789''"
  shows "nat_of_digits ds = (\<Sum>i<length ds. (of_char (ds ! i) - 48) * 10 ^ (length ds - Suc i))"
  using assms
proof (induction ds rule: rev_induct)
  case Nil
  then show ?case by (simp add: nat_of_digits_def)
next
  case (snoc c ds)
  then have c: "c \<in> set ''0123456789''" and ds: "set ds \<subseteq> set ''0123456789''" by auto
  let ?d = "\<lambda>xs i. (of_char (xs ! i) - 48 :: nat)"
  have "(\<Sum>i<length (ds @ [c]). ?d (ds @ [c]) i * 10 ^ (length (ds @ [c]) - Suc i))
      = (\<Sum>i<length ds. ?d (ds @ [c]) i * 10 ^ (length ds - i)) + (of_char c - 48)"
    by simp
  also have "(\<Sum>i<length ds. ?d (ds @ [c]) i * 10 ^ (length ds - i))
      = (\<Sum>i<length ds. 10 * (?d ds i * 10 ^ (length ds - Suc i)))"
  proof (rule sum.cong)
    fix i assume "i \<in> {..<length ds}"
    then have i: "i < length ds" by simp
    then have "length ds - i = Suc (length ds - Suc i)" by simp
    with i show "?d (ds @ [c]) i * 10 ^ (length ds - i)
        = 10 * (?d ds i * 10 ^ (length ds - Suc i))"
      by (simp add: nth_append)
  qed simp
  also have "\<dots> = 10 * (\<Sum>i<length ds. ?d ds i * 10 ^ (length ds - Suc i))"
    by (simp add: sum_distrib_left)
  finally show ?case
    using snoc.IH [OF ds] by (simp add: nat_of_digits_snoc digit_val_char [OF c])
qed

text \<open>
  Claim C8, as the code has it. When the cleaned table has the column
  \<^verbatim>\<open>emp_length\<close>, the processed table has the column \<^verbatim>\<open>emp_years\<close>, and in each of
  its rows it is 10 when the text of \<^verbatim>\<open>emp_length\<close> contains a plus sign; otherwise,
  for a text whose first run of digits is \<open>ds\<close>, it is the integer that \<open>ds\<close> writes in
  base ten, when this integer is at most \<open>2 ^ 53\<close>; it is 0 when the text has no digit,
  and 0 when \<^verbatim>\<open>emp_length\<close> is no text (missing). The value is a 64-bit float: an
  integer above \<open>2 ^ 53\<close> is rounded, and the theorem says nothing of it.
\<close>

theorem C8_emp_years:
  assumes "transformation_main now df = Some (out, report)"
    and "''emp_length'' \<in> set (columns df)"
    and "r \<in> set (rows out)"
  shows "''emp_years'' \<in> set (columns out) \<and>
         (\<forall>s. r ''emp_length'' = Str s \<and> CHR ''+'' \<in> set s \<longrightarrow> r ''emp_years'' = Num 10) \<and>
         (\<forall>s pre ds post.
            r ''emp_length'' = Str s \<and> CHR ''+'' \<notin> set s \<and> s = pre @ ds @ post \<and>
            set pre \<inter> set ''0123456789'' = {} \<and> ds \<noteq> [] \<and> set ds \<subseteq> set ''0123456789'' \<and>
            (post = [] \<or> hd post \<notin> set ''0123456789'') \<and>
            (\<Sum>i<length ds. (of_char (ds ! i) - 48) * 10 ^ (length ds - Suc i)) \<le> (2 :: nat) ^ 53
            \<longrightarrow> r ''emp_years'' =
                  Num (of_nat (\<Sum>i<length ds. (of_char (ds ! i) - 48) * 10 ^ (length ds - Suc i)))) \<and>
         (\<forall>s. r ''emp_length'' = Str s \<and> CHR ''+'' \<notin> set s \<and> set s \<inter> set ''0123456789'' = {}
            \<longrightarrow> r ''emp_years'' = Num 0) \<and>
         ((\<forall>s. r ''emp_length'' \<noteq> Str s) \<longrightarrow> r ''emp_years'' = Num 0)"
proof -
  from transformation_main_Some [OF assms(1)] obtain st where
    st: "transformation df = Some st" and out: "out = table st" by blast
  from processed_row [OF assms(1,3)] obtain r0 where
    r0: "transform_row (columns df) r0 = Some r" by blast
  have len: "r ''emp_length'' = r0 ''emp_length''"
    by (rule transform_row_keeps [OF r0]) (simp add: derived_columns_def)
  have years: "r ''emp_years'' =
      (if contains_plus (r ''emp_length'') then Num 10 else extract_years (r ''emp_length''))"
    using transform_row_years [OF r0 assms(2)] len by simp
  have col: "''emp_years'' \<in> set (columns out)"
    using transformation_adds(3) [OF st assms(2)] out by simp
  have plus: "r ''emp_years'' = Num 10" if "r ''emp_length'' = Str s" "CHR ''+'' \<in> set s" for s
    using that years by (simp add: contains_plus_def)
  have first: "r ''emp_years'' =
      Num (of_nat (\<Sum>i<length ds. (of_char (ds ! i) - 48) * 10 ^ (length ds - Suc i)))"
    if "r ''emp_length'' = Str s" "CHR ''+'' \<notin> set s" "s = pre @ ds @ post"
      "set pre \<inter> set ''0123456789'' = {}" "ds \<noteq> []" "set ds \<subseteq> set ''0123456789''"
      "post = [] \<or> hd post \<notin> set ''0123456789''"
      "(\<Sum>i<length ds. (of_char (ds ! i) - 48) * 10 ^ (length ds - Suc i)) \<le> (2 :: nat) ^ 53"
    for s pre ds post
  proof -
    from that(4) have a: "\<not> list_ex is_digit pre"
      unfolding is_digit_def list_ex_iff by blast
    from that(6) have b: "list_all is_digit ds"
      unfolding is_digit_def list_all_iff by blast
    from that(7) have c: "post = [] \<or> \<not> is_digit (hd post)"
      unfolding is_digit_def by blast
    from extract_digits_first [OF that(3) a that(5) b c] have e: "extract_digits s = ds" .
    from that(8) have "nat_of_digits ds \<le> 2 ^ 53"
      by (simp only: nat_of_digits_sum [OF that(6)])
    then have "float_of_nat (nat_of_digits ds) = Num (of_nat (nat_of_digits ds))"
      by (simp add: float_of_nat_def)
    with that(1,2,5) years e have "r ''emp_years'' = Num (of_nat (nat_of_digits ds))"
      by (simp add: contains_plus_def extract_years_def)
    then show ?thesis by (simp only: nat_of_digits_sum [OF that(6)])
  qed
  have none: "r ''emp_years'' = Num 0"
    if "r ''emp_length'' = Str s" "CHR ''+'' \<notin> set s" "set s \<inter> set ''0123456789'' = {}" for s
  proof -
    from that(3) have "\<not> list_ex is_digit s"
      unfolding is_digit_def list_ex_iff by blast
    from extract_digits_none [OF this] that(1,2) years show ?thesis
      by (simp add: contains_plus_def extract_years_def)
  qed
  have other: "r ''emp_years'' = Num 0" if "\<forall>s. r ''emp_length'' \<noteq> Str s"
    using that years
    by (cases "r ''emp_length''") (simp_all add: contains_plus_def extract_years_def)
  from col plus first none other show ?thesis by blast
qed

text \<open>On the example table the first loan has \<^verbatim>\<open>10+ years\<close> and the second
  \<^verbatim>\<open>< 1 year\<close>; on the second example table the first has \<^verbatim>\<open>n/a\<close>, the second no
  value and the third \<^verbatim>\<open>3 years\<close>.\<close>

theorem C8_emp_years_witness:
  "(\<exists>out report.
     transformation_main ''2024-01-01 00:00:00'' cleaned_example = Some (out, report) \<and>
     ''emp_length'' \<in> set (columns cleaned_example) \<and>
     hd (rows out) \<in> set (rows out) \<and> last (rows out) \<in> set (rows out) \<and>
     ''emp_years'' \<in> set (columns out) \<and>
     hd (rows out) ''emp_length'' = Str ''10+ years'' \<and> hd (rows out) ''emp_years'' = Num 10 \<and>
     last (rows out) ''emp_length'' = Str ''< 1 year'' \<and> last (rows out) ''emp_years'' = Num 1) \<and>
   (\<exists>out report.
     transformation_main ''2024-01-01 00:00:00'' varied_example = Some (out, report) \<and>
     rows out ! 0 \<in> set (rows out) \<and> rows out ! 1 \<in> set (rows out) \<and>
     rows out ! 2 \<in> set (rows out) \<and>
     (rows out ! 0) ''emp_length'' = Str ''n/a'' \<and> (rows out ! 0) ''emp_years'' = Num 0 \<and>
     (rows out ! 1) ''emp_length'' = Null \<and> (rows out ! 1) ''emp_years'' = Num 0 \<and>
     (rows out ! 2) ''emp_length'' = Str ''3 years'' \<and> (rows out ! 2) ''emp_years'' = Num 3)"
proof (intro conjI)
  let ?now = "''2024-01-01 00:00:00''"
  obtain out report where run: "transformation_main ?now cleaned_example = Some (out, report)"
    using cleaned_example_transforms [of ?now]
    by (cases "transformation_main ?now cleaned_example") auto
  have cols: "''emp_length'' \<in> set (columns cleaned_example)"
    by (simp add: cleaned_example_def)
  from run have out: "out = fst (the (transformation_main ?now cleaned_example))" by simp
  have hd_len: "hd (rows out) ''emp_length'' = Str ''10+ years''"
    and last_len: "last (rows out) ''emp_length'' = Str ''< 1 year''"
    and ne: "rows out \<noteq> []"
    unfolding out
    by (simp_all add: transformation_main_def cleaned_example_def transformation_defs cell_defs
        Let_def)
  from ne have mem: "hd (rows out) \<in> set (rows out)" "last (rows out) \<in> set (rows out)"
    by simp_all
  note c8_hd = C8_emp_years [OF run cols mem(1)]
  note c8_last = C8_emp_years [OF run cols mem(2)]
  have col: "''emp_years'' \<in> set (columns out)"
    by (rule c8_hd [THEN conjunct1])
  have "hd (rows out) ''emp_length'' = Str ''10+ years'' \<and> CHR ''+'' \<in> set ''10+ years''
      \<longrightarrow> hd (rows out) ''emp_years'' = Num 10"
    by (rule c8_hd [THEN conjunct2, THEN conjunct1, THEN spec])
  with hd_len have first: "hd (rows out) ''emp_years'' = Num 10" by simp
  have digits: "''< 1 year'' = ''< '' @ ''1'' @ '' year''"
    "set ''< '' \<inter> set ''0123456789'' = {}"
    "''1'' \<noteq> []" "set ''1'' \<subseteq> set ''0123456789''"
    "'' year'' = [] \<or> hd '' year'' \<notin> set ''0123456789''"
    "CHR ''+'' \<notin> set ''< 1 year''"
    "(\<Sum>i<length ''1''. (of_char (''1'' ! i) - 48) * 10 ^ (length ''1'' - Suc i)) \<le> (2 :: nat) ^ 53"
    by simp_all
  have "last (rows out) ''emp_length'' = Str ''< 1 year'' \<and> CHR ''+'' \<notin> set ''< 1 year'' \<and>
      ''< 1 year'' = ''< '' @ ''1'' @ '' year'' \<and>
      set ''< '' \<inter> set ''0123456789'' = {} \<and> ''1'' \<noteq> [] \<and> set ''1'' \<subseteq> set ''0123456789'' \<and>
      ('' year'' = [] \<or> hd '' year'' \<notin> set ''0123456789'') \<and>
      (\<Sum>i<length ''1''. (of_char (''1'' ! i) - 48) * 10 ^ (length ''1'' - Suc i)) \<le> (2 :: nat) ^ 53
      \<longrightarrow> last (rows out) ''emp_years'' =
            Num (of_nat (\<Sum>i<length ''1''. (of_char (''1'' ! i) - 48) * 10 ^ (length ''1'' - Suc i)))"
    by (rule c8_last [THEN conjunct2, THEN conjunct2, THEN conjunct1, THEN spec, THEN spec,
          THEN spec, THEN spec])
  with last_len digits have "last (rows out) ''emp_years'' =
      Num (of_nat (\<Sum>i<length ''1''. (of_char (''1'' ! i) - 48) * 10 ^ (length ''1'' - Suc i)))"
    by blast
  then have second: "last (rows out) ''emp_years'' = Num 1" by simp
  from run cols mem col first second hd_len last_len show "\<exists>out report.
     transformation_main ''2024-01-01 00:00:00'' cleaned_example = Some (out, report) \<and>
     ''emp_length'' \<in> set (columns cleaned_example) \<and>
     hd (rows out) \<in> set (rows out) \<and> last (rows out) \<in> set (rows out) \<and>
     ''emp_years'' \<in> set (columns out) \<and>
     hd (rows out) ''emp_length'' = Str ''10+ years'' \<and> hd (rows out) ''emp_years'' = Num 10 \<and>
     last (rows out) ''emp_length'' = Str ''< 1 year'' \<and> last (rows out) ''emp_years'' = Num 1"
    by blast
next
  let ?now = "''2024-01-01 00:00:00''"
  obtain out report where run: "transformation_main ?now varied_example = Some (out, report)"
    using varied_example_transforms [of ?now]
    by (cases "transformation_main ?now varied_example") auto
  have cols: "''emp_length'' \<in> set (columns varied_example)"
    by (simp add: varied_example_def)
  note v = varied_example_rows [OF run]
  from v(1) have mem: "rows out ! 0 \<in> set (rows out)" "rows out ! 1 \<in> set (rows out)"
    "rows out ! 2 \<in> set (rows out)"
    by simp_all
  from map_nth_eq [OF v(4), of 0] map_nth_eq [OF v(4), of 1] map_nth_eq [OF v(4), of 2]
  have e: "(rows out ! 0) ''emp_length'' = Str ''n/a''" "(rows out ! 1) ''emp_length'' = Null"
    "(rows out ! 2) ''emp_length'' = Str ''3 years''"
    by simp_all
  have "(rows out ! 0) ''emp_length'' = Str ''n/a'' \<and> CHR ''+'' \<notin> set ''n/a'' \<and>
      set ''n/a'' \<inter> set ''0123456789'' = {} \<longrightarrow> (rows out ! 0) ''emp_years'' = Num 0"
    by (rule C8_emp_years [OF run cols mem(1), THEN conjunct2, THEN conjunct2, THEN conjunct2,
          THEN conjunct1, THEN spec])
  with e(1) have y0: "(rows out ! 0) ''emp_years'' = Num 0" by simp
  have "(\<forall>s. (rows out ! 1) ''emp_length'' \<noteq> Str s) \<longrightarrow> (rows out ! 1) ''emp_years'' = Num 0"
    by (rule C8_emp_years [OF run cols mem(2), THEN conjunct2, THEN conjunct2, THEN conjunct2,
          THEN conjunct2])
  with e(2) have y1: "(rows out ! 1) ''emp_years'' = Num 0" by simp
  have digits: "''3 years'' = [] @ ''3'' @ '' years''"
    "set (''''::string) \<inter> set ''0123456789'' = {}"
    "''3'' \<noteq> []" "set ''3'' \<subseteq> set ''0123456789''"
    "'' years'' = [] \<or> hd '' years'' \<notin> set ''0123456789''"
    "CHR ''+'' \<notin> set ''3 years''"
    "(\<Sum>i<length ''3''. (of_char (''3'' ! i) - 48) * 10 ^ (length ''3'' - Suc i)) \<le> (2 :: nat) ^ 53"
    by simp_all
  have "(rows out ! 2) ''emp_length'' = Str ''3 years'' \<and> CHR ''+'' \<notin> set ''3 years'' \<and>
      ''3 years'' = [] @ ''3'' @ '' years'' \<and>
      set (''''::string) \<inter> set ''0123456789'' = {} \<and> ''3'' \<noteq> [] \<and>
      set ''3'' \<subseteq> set ''0123456789'' \<and>
      ('' years'' = [] \<or> hd '' years'' \<notin> set ''0123456789'') \<and>
      (\<Sum>i<length ''3''. (of_char (''3'' ! i) - 48) * 10 ^ (length ''3'' - Suc i)) \<le> (2 :: nat) ^ 53
      \<longrightarrow> (rows out ! 2) ''emp_years'' =
            Num (of_nat (\<Sum>i<length ''3''. (of_char (''3'' ! i) - 48) * 10 ^ (length ''3'' - Suc i)))"
    by (rule C8_emp_years [OF run cols mem(3), THEN conjunct2, THEN conjunct2, THEN conjunct1,
          THEN spec, THEN spec, THEN spec, THEN spec])
  with e(3) digits have "(rows out ! 2) ''emp_years'' =
      Num (of_nat (\<Sum>i<length ''3''. (of_char (''3'' ! i) - 48) * 10 ^ (length ''3'' - Suc i)))"
    by blast
  then have y2: "(rows out ! 2) ''emp_years'' = Num 3" by simp
  from run mem e y0 y1 y2 show "\<exists>out report.
     transformation_main ''2024-01-01 00:00:00'' varied_example = Some (out, report) \<and>
     rows out ! 0 \<in> set (rows out) \<and> rows out ! 1 \<in> set (rows out) \<and>
     rows out ! 2 \<in> set (rows out) \<and>
     (rows out ! 0) ''emp_length'' = Str ''n/a'' \<and> (rows out ! 0) ''emp_years'' = Num 0 \<and>
     (rows out ! 1) ''emp_length'' = Null \<and> (rows out ! 1) ''emp_years'' = Num 0 \<and>
     (rows out ! 2) ''emp_length'' = Str ''3 years'' \<and> (rows out ! 2) ''emp_years'' = Num 3"
    by blast
qed

text \<open>
  Claim C8 as it is stated has \<^verbatim>\<open>emp_years\<close> equal to the first integer of the text for
  every row. A text with a run of twenty digits gives the nearest 64-bit float, which is
  another integer.
\<close>

theorem C8_rounding_counterexample:
  "processed_column ''emp_length'' long_example = Some [Str ''12345678901234567890 years''] \<and>
   processed_column ''emp_years'' long_example = Some [Num 12345678901234567168]"
  by (simp add: processed_column_def long_example_def transformation_defs cell_defs Let_def
      bit_length.simps)

text \<open>
  Claim C4, as the code has it. \<^verbatim>\<open>pd.cut\<close> makes intervals that are closed on the
  right: when the cleaned table has the column \<^verbatim>\<open>loan_amnt\<close>, in each row of the
  processed table \<^verbatim>\<open>loan_size_category\<close> is "Very Small" for 0 < loan_amnt \<le> 5000,
  "Small" for 5000 < loan_amnt \<le> 15000, "Medium" for 15000 < loan_amnt \<le> 25000, "Large"
  for 25000 < loan_amnt \<le> 35000, "Very Large" above 35000, and missing when loan_amnt is
  missing, zero or negative; loan_amnt = 20000 gives "Medium".
\<close>

theorem C4_loan_size_category:
  assumes "transformation_main now df = Some (out, report)"
    and "''loan_amnt'' \<in> set (columns df)"
    and "r \<in> set (rows out)"
  shows "''loan_size_category'' \<in> set (columns out) \<and> \<not> is_str (r ''loan_amnt'') \<and>
         (\<forall>x. r ''loan_amnt'' = Num x \<longrightarrow>
            (x \<le> 0 \<longrightarrow> r ''loan_size_category'' = Null) \<and>
            (0 < x \<and> x \<le> 5000 \<longrightarrow> r ''loan_size_category'' = Str ''Very Small'') \<and>
            (5000 < x \<and> x \<le> 15000 \<longrightarrow> r ''loan_size_category'' = Str ''Small'') \<and>
            (15000 < x \<and> x \<le> 25000 \<longrightarrow> r ''loan_size_category'' = Str ''Medium'') \<and>
            (25000 < x \<and> x \<le> 35000 \<longrightarrow> r ''loan_size_category'' = Str ''Large'') \<and>
            (35000 < x \<longrightarrow> r ''loan_size_category'' = Str ''Very Large'')) \<and>
         (r ''loan_amnt'' = Inf True \<longrightarrow> r ''loan_size_category'' = Str ''Very Large'') \<and>
         (r ''loan_amnt'' = Inf False \<or> r ''loan_amnt'' = Null
            \<longrightarrow> r ''loan_size_category'' = Null) \<and>
         (r ''loan_amnt'' = Num 20000 \<longrightarrow> r ''loan_size_category'' = Str ''Medium'')"
proof -
  from transformation_main_Some [OF assms(1)] obtain st where
    st: "transformation df = Some st" and out: "out = table st" by blast
  from processed_row [OF assms(1,3)] obtain r0 where
    r0: "transform_row (columns df) r0 = Some r" by blast
  have amnt: "r ''loan_amnt'' = r0 ''loan_amnt''"
    by (rule transform_row_keeps [OF r0]) (simp add: derived_columns_def)
  have size: "cut (r ''loan_amnt'') = Some (r ''loan_size_category'')"
    using transform_row_size [OF r0 assms(2)] amnt by simp
  have col: "''loan_size_category'' \<in> set (columns out)"
    using transformation_adds(4) [OF st assms(2)] out by simp
  show ?thesis
  proof (cases "r ''loan_amnt''")
    case Null
    with size col show ?thesis by (auto simp: cut_def is_str_def)
  next
    case (Num x)
    with size have "r ''loan_size_category'' = cut_value bins labels (Num x)"
      by (simp add: cut_def)
    with Num col show ?thesis
      by (auto simp: bins_def labels_def num_less_def is_str_def)
  next
    case (Inf b)
    with size have "r ''loan_size_category'' = cut_value bins labels (Inf b)"
      by (simp add: cut_def)
    with Inf col show ?thesis
      by (auto simp: bins_def labels_def num_less_def is_str_def)
  next
    case (Str s)
    with size show ?thesis by (simp add: cut_def)
  qed
qed

text \<open>
  On the example table the first loan is of 20000 and the second of 5000; on the second
  example table the loans are of 0, 10000, 30000 and 40000.
\<close>

theorem C4_loan_size_category_witness:
  "(\<exists>out report.
     transformation_main ''2024-01-01 00:00:00'' cleaned_example = Some (out, report) \<and>
     ''loan_amnt'' \<in> set (columns cleaned_example) \<and>
     hd (rows out) \<in> set (rows out) \<and> last (rows out) \<in> set (rows out) \<and>
     ''loan_size_category'' \<in> set (columns out) \<and>
     hd (rows out) ''loan_amnt'' = Num 20000 \<and>
     hd (rows out) ''loan_size_category'' = Str ''Medium'' \<and>
     last (rows out) ''loan_amnt'' = Num 5000 \<and>
     last (rows out) ''loan_size_category'' = Str ''Very Small'') \<and>
   (\<exists>out report.
     transformation_main ''2024-01-01 00:00:00'' varied_example = Some (out, report) \<and>
     rows out ! 0 \<in> set (rows out) \<and> rows out ! 1 \<in> set (rows out) \<and>
     rows out ! 2 \<in> set (rows out) \<and> rows out ! 3 \<in> set (rows out) \<and>
     (rows out ! 0) ''loan_amnt'' = Num 0 \<and> (rows out ! 0) ''loan_size_category'' = Null \<and>
     (rows out ! 1) ''loan_amnt'' = Num 10000 \<and>
     (rows out ! 1) ''loan_size_category'' = Str ''Small'' \<and>
     (rows out ! 2) ''loan_amnt'' = Num 30000 \<and>
     (rows out ! 2) ''loan_size_category'' = Str ''Large'' \<and>
     (rows out ! 3) ''loan_amnt'' = Num 40000 \<and>
     (rows out ! 3) ''loan_size_category'' = Str ''Very Large'')"
proof (intro conjI)
  let ?now = "''2024-01-01 00:00:00''"
  obtain out report where run: "transformation_main ?now cleaned_example = Some (out, report)"
    using cleaned_example_transforms [of ?now]
    by (cases "transformation_main ?now cleaned_example") auto
  have cols: "''loan_amnt'' \<in> set (columns cleaned_example)"
    by (simp add: cleaned_example_def)
  from run have out: "out = fst (the (transformation_main ?now cleaned_example))" by simp
  have hd_amnt: "hd (rows out) ''loan_amnt'' = Num 20000"
    and last_amnt: "last (rows out) ''loan_amnt'' = Num 5000"
    and ne: "rows out \<noteq> []"
    unfolding out
    by (simp_all add: transformation_main_def cleaned_example_def transformation_defs cell_defs
        Let_def)
  from ne have mem: "hd (rows out) \<in> set (rows out)" "last (rows out) \<in> set (rows out)"
    by simp_all
  from C4_loan_size_category [OF run cols mem(1)] hd_amnt
  have first: "''loan_size_category'' \<in> set (columns out)"
    "hd (rows out) ''loan_size_category'' = Str ''Medium''"
    by simp_all
  from C4_loan_size_category [OF run cols mem(2)] last_amnt
  have second: "last (rows out) ''loan_size_category'' = Str ''Very Small''" by simp
  from run cols mem first second hd_amnt last_amnt show "\<exists>out report.
     transformation_main ''2024-01-01 00:00:00'' cleaned_example = Some (out, report) \<and>
     ''loan_amnt'' \<in> set (columns cleaned_example) \<and>
     hd (rows out) \<in> set (rows out) \<and> last (rows out) \<in> set (rows out) \<and>
     ''loan_size_category'' \<in> set (columns out) \<and>
     hd (rows out) ''loan_amnt'' = Num 20000 \<and>
     hd (rows out) ''loan_size_category'' = Str ''Medium'' \<and>
     last (rows out) ''loan_amnt'' = Num 5000 \<and>
     last (rows out) ''loan_size_category'' = Str ''Very Small''"
    by blast
next
  let ?now = "''2024-01-01 00:00:00''"
  obtain out report where run: "transformation_main ?now varied_example = Some (out, report)"
    using varied_example_transforms [of ?now]
    by (cases "transformation_main ?now varied_example") auto
  have cols: "''loan_amnt'' \<in> set (columns varied_example)"
    by (simp add: varied_example_def)
  note v = varied_example_rows [OF run]
  from v(1) have mem: "rows out ! 0 \<in> set (rows out)" "rows out ! 1 \<in> set (rows out)"
    "rows out ! 2 \<in> set (rows out)" "rows out ! 3 \<in> set (rows out)"
    by simp_all
  from map_nth_eq [OF v(2), of 0] map_nth_eq [OF v(2), of 1]
    map_nth_eq [OF v(2), of 2] map_nth_eq [OF v(2), of 3]
  have a: "(rows out ! 0) ''loan_amnt'' = Num 0" "(rows out ! 1) ''loan_amnt'' = Num 10000"
    "(rows out ! 2) ''loan_amnt'' = Num 30000" "(rows out ! 3) ''loan_amnt'' = Num 40000"
    by simp_all
  from C4_loan_size_category [OF run cols mem(1)] a(1)
  have s0: "(rows out ! 0) ''loan_size_category'' = Null" by simp
  from C4_loan_size_category [OF run cols mem(2)] a(2)
  have s1: "(rows out ! 1) ''loan_size_category'' = Str ''Small''" by simp
  from C4_loan_size_category [OF run cols mem(3)] a(3)
  have s2: "(rows out ! 2) ''loan_size_category'' = Str ''Large''" by simp
  from C4_loan_size_category [OF run cols mem(4)] a(4)
  have s3: "(rows out ! 3) ''loan_size_category'' = Str ''Very Large''" by simp
  from run mem a s0 s1 s2 s3 show "\<exists>out report.
     transformation_main ''2024-01-01 00:00:00'' varied_example = Some (out, report) \<and>
     rows out ! 0 \<in> set (rows out) \<and> rows out ! 1 \<in> set (rows out) \<and>
     rows out ! 2 \<in> set (rows out) \<and> rows out ! 3 \<in> set (rows out) \<and>
     (rows out ! 0) ''loan_amnt'' = Num 0 \<and> (rows out ! 0) ''loan_size_category'' = Null \<and>
     (rows out ! 1) ''loan_amnt'' = Num 10000 \<and>
     (rows out ! 1) ''loan_size_category'' = Str ''Small'' \<and>
     (rows out ! 2) ''loan_amnt'' = Num 30000 \<and>
     (rows out ! 2) ''loan_size_category'' = Str ''Large'' \<and>
     (rows out ! 3) ''loan_amnt'' = Num 40000 \<and>
     (rows out ! 3) ''loan_size_category'' = Str ''Very Large''"
    by blast
qed

text \<open>
  Claim C4 as it is stated puts a loan of 5000 in "Small" (5000 \<le> loan_amnt < 15000); the
  processed example table has it in "Very Small".
\<close>

theorem C4_boundary_counterexample:
  "processed_column ''loan_amnt'' cleaned_example = Some [Num 20000, Num 5000] \<and>
   processed_column ''loan_size_category'' cleaned_example
     = Some [Str ''Medium'', Str ''Very Small'']"
  by (simp add: processed_column_def cleaned_example_def transformation_defs cell_defs Let_def)

section \<open>What the transformation leaves alone\<close>

text \<open>
  Claim C10, as the code has it. The processed table has the rows of the cleaned table, in
  the same number and order; its columns are those of the cleaned table followed by new
  ones, all of them derived columns; and every column that does not bear the name of a
  derived column has the values it had. A column of the cleaned table that bears the name
  of a derived column is written over.
\<close>

theorem C10_keeps_other_columns:
  assumes "transformation_main now df = Some (out, report)"
  shows "length (rows out) = length (rows df) \<and>
         (\<exists>new. columns out = columns df @ new \<and> set new \<subseteq> set derived_columns) \<and>
         (\<forall>i c. i < length (rows df) \<and> c \<notin> set derived_columns
            \<longrightarrow> (rows out ! i) c = (rows df ! i) c) \<and>
         (\<forall>c. c \<notin> set derived_columns \<longrightarrow> column_values out c = column_values df c)"
proof -
  from transformation_main_Some [OF assms] obtain st where
    st: "transformation df = Some st" and out: "out = table st" by blast
  from transformation_rowwise [OF st] out
  have l: "list_all2 (\<lambda>r r'. transform_row (columns df) r = Some r') (rows df) (rows out)"
    by simp
  then have len: "length (rows out) = length (rows df)"
    by (simp add: list_all2_lengthD)
  have keep: "(rows out ! i) c = (rows df ! i) c"
    if "i < length (rows df)" "c \<notin> set derived_columns" for i c
  proof -
    from l that(1) have "transform_row (columns df) (rows df ! i) = Some (rows out ! i)"
      by (simp add: list_all2_conv_all_nth)
    from transform_row_keeps [OF this that(2)] show ?thesis .
  qed
  have vals: "column_values out c = column_values df c" if "c \<notin> set derived_columns" for c
    unfolding column_values_def
    by (rule nth_equalityI) (simp_all add: len keep that)
  from transformation_columns [OF st] out
  have cols: "\<exists>new. columns out = columns df @ new \<and> set new \<subseteq> set derived_columns"
    by simp
  from len cols keep vals show ?thesis by blast
qed

text \<open>
  On the example table, which has two rows.
\<close>

theorem C10_keeps_other_columns_witness:
  "\<exists>out report.
     transformation_main ''2024-01-01 00:00:00'' cleaned_example = Some (out, report) \<and>
     length (rows out) = 2 \<and>
     column_values out ''loan_amnt'' = [Num 20000, Num 5000] \<and>
     column_values out ''loan_status'' = [Str ''Fully Paid'', Str ''Charged Off'']"
proof -
  let ?now = "''2024-01-01 00:00:00''"
  obtain out report where run: "transformation_main ?now cleaned_example = Some (out, report)"
    using cleaned_example_transforms [of ?now]
    by (cases "transformation_main ?now cleaned_example") auto
  note c10 = C10_keeps_other_columns [OF run]
  have len: "length (rows out) = length (rows cleaned_example)"
    by (rule c10 [THEN conjunct1])
  have keep: "\<forall>c. c \<notin> set derived_columns
      \<longrightarrow> column_values out c = column_values cleaned_example c"
    by (rule c10 [THEN conjunct2, THEN conjunct2, THEN conjunct2])
  have "''loan_amnt'' \<notin> set derived_columns" "''loan_status'' \<notin> set derived_columns"
    by (simp_all add: derived_columns_def)
  with keep have "column_values out ''loan_amnt'' = column_values cleaned_example ''loan_amnt''"
    "column_values out ''loan_status'' = column_values cleaned_example ''loan_status''"
    by blast+
  then have vals: "column_values out ''loan_amnt'' = [Num 20000, Num 5000]"
    "column_values out ''loan_status'' = [Str ''Fully Paid'', Str ''Charged Off'']"
    by (simp_all add: column_values_def cleaned_example_def mk_row_def)
  from len have "length (rows out) = 2" by (simp add: cleaned_example_def)
  with run vals show ?thesis by blast
qed

text \<open>
  Claim C10 as it is stated says that every column of the cleaned table keeps its values.
  A cleaned table with a column \<^verbatim>\<open>is_good_loan\<close> of its own has it replaced: the loan
  below is charged off and was marked 1.
\<close>

theorem C10_overwrite_counterexample:
  "''is_good_loan'' \<in> set (columns relabelled_example) \<and>
   column_values relabelled_example ''is_good_loan'' = [Num 1] \<and>
   processed_column ''is_good_loan'' relabelled_example = Some [Num 0]"
  by (simp add: processed_column_def relabelled_example_def transformation_defs cell_defs Let_def)

section \<open>The cleaning, step by step\<close>

lemma remove_empty_columns_eq:
  "remove_empty_columns (df, steps) =
     (dropna_all_columns df,
      steps @ (if length (columns (dropna_all_columns df)) < length (columns df)
               then [Removed_empty (length (columns df) - length (columns (dropna_all_columns df)))]
               else []))"
  by (simp add: remove_empty_columns_def Let_def)

lemma remove_high_missing_eq:
  "remove_high_missing (df, steps) =
     (drop_columns (high_missing df) df,
      steps @ (if high_missing df \<noteq> [] then [Removed_high_missing (length (high_missing df))]
               else []))"
  by (simp add: remove_high_missing_def Let_def)

lemma remove_duplicates_eq:
  "remove_duplicates (df, steps) =
     (drop_duplicates df,
      steps @ (if length (rows (drop_duplicates df)) < length (rows df)
               then [Removed_dupes (length (rows df) - length (rows (drop_duplicates df)))]
               else []))"
  by (simp add: remove_duplicates_def Let_def)

lemma clean_key_col_eq:
  "clean_key_col (df, steps) col =
     (if col \<in> set (columns df) \<and> 0 < null_count df col
      then (dropna_subset col df, steps @ [Removed_missing (null_count df col) col])
      else (df, steps))"
  by (simp add: clean_key_col_def Let_def)

lemma dropna_all_columns_simps:
  "rows (dropna_all_columns df) = rows df"
  "columns (dropna_all_columns df) =
     filter (\<lambda>c. \<exists>r\<in>set (rows df). r c \<noteq> Null) (columns df)"
  by (simp_all add: dropna_all_columns_def list_ex_iff isnull_def)

lemma drop_columns_simps:
  "rows (drop_columns cs df) = rows df"
  "columns (drop_columns cs df) = filter (\<lambda>c. c \<notin> set cs) (columns df)"
  by (simp_all add: drop_columns_def)

lemma high_missing_subset: "set (high_missing df) \<subseteq> set (columns df)"
  by (auto simp: high_missing_def)

lemma drop_high_missing_length:
  "length (columns (drop_columns (high_missing df) df)) < length (columns df)
     \<longleftrightarrow> high_missing df \<noteq> []"
proof
  assume "high_missing df \<noteq> []"
  then obtain c where c: "c \<in> set (high_missing df)" by (cases "high_missing df") auto
  with high_missing_subset have "c \<in> set (columns df)" by blast
  with c show "length (columns (drop_columns (high_missing df) df)) < length (columns df)"
    by (auto simp: drop_columns_simps intro: length_filter_less)
next
  assume "length (columns (drop_columns (high_missing df) df)) < length (columns df)"
  then show "high_missing df \<noteq> []"
    by (auto simp: drop_columns_simps)
qed

lemma dedup_rows_length: "length (dedup_rows cols seen rs) \<le> length rs"
  by (induction rs arbitrary: seen) (auto intro: le_SucI)

lemma dedup_rows_subset: "set (dedup_rows cols seen rs) \<subseteq> set rs"
  by (induction rs arbitrary: seen) auto

lemma drop_duplicates_simps:
  "columns (drop_duplicates df) = columns df"
  "length (rows (drop_duplicates df)) \<le> length (rows df)"
  "set (rows (drop_duplicates df)) \<subseteq> set (rows df)"
  using dedup_rows_length [of "columns df" "[]" "rows df"]
    dedup_rows_subset [of "columns df" "[]" "rows df"]
  by (auto simp: drop_duplicates_def)

lemma dropna_subset_simps:
  "columns (dropna_subset col df) = columns df"
  "rows (dropna_subset col df) = filter (\<lambda>r. r col \<noteq> Null) (rows df)"
  by (simp_all add: dropna_subset_def isnull_def)

lemma null_count_pos: "0 < null_count df col \<longleftrightarrow> (\<exists>r\<in>set (rows df). r col = Null)"
  by (auto simp: null_count_def column_values_def isnull_def filter_empty_conv)

lemma dropna_subset_length:
  "length (rows (dropna_subset col df)) < length (rows df) \<longleftrightarrow> 0 < null_count df col"
proof
  assume "0 < null_count df col"
  then obtain r where "r \<in> set (rows df)" "r col = Null" by (auto simp: null_count_pos)
  then show "length (rows (dropna_subset col df)) < length (rows df)"
    by (auto simp: dropna_subset_simps intro: length_filter_less)
next
  assume "length (rows (dropna_subset col df)) < length (rows df)"
  then have "filter (\<lambda>r. r col \<noteq> Null) (rows df) \<noteq> rows df"
    by (auto simp: dropna_subset_simps)
  then show "0 < null_count df col"
    by (auto simp: null_count_pos filter_id_conv)
qed


lemma frame_rows_same: "df\<lparr>rows := rows df\<rparr> = df"
  by simp

lemma clean_key_col_fst:
  "fst (clean_key_col st k) =
     (if k \<in> set (columns (fst st)) then dropna_subset k (fst st) else fst st)"
proof (cases "k \<in> set (columns (fst st)) \<and> \<not> 0 < null_count (fst st) k")
  case True
  then have "\<forall>r\<in>set (rows (fst st)). r k \<noteq> Null" by (simp add: null_count_pos)
  then have "filter (\<lambda>r. \<not> isnull (r k)) (rows (fst st)) = rows (fst st)"
    by (simp add: filter_id_conv isnull_def)
  then have "dropna_subset k (fst st) = fst st" by (simp add: dropna_subset_def)
  with True show ?thesis by (simp add: clean_key_col_def Let_def)
next
  case False
  then show ?thesis by (auto simp: clean_key_col_def Let_def)
qed

lemma clean_key_col_snd:
  "snd (clean_key_col st k) =
     snd st @ (if length (rows (fst (clean_key_col st k))) < length (rows (fst st))
               then [Removed_missing (null_count (fst st) k) k] else [])"
proof (cases "k \<in> set (columns (fst st))")
  case True
  then show ?thesis
    using dropna_subset_length [of k "fst st"]
    by (auto simp: clean_key_col_fst) (auto simp: clean_key_col_def Let_def)
next
  case False
  then show ?thesis by (simp add: clean_key_col_def Let_def)
qed

lemma fold_key_columns: "columns (fst (foldl clean_key_col st ks)) = columns (fst st)"
  by (induction ks arbitrary: st) (simp_all add: clean_key_col_fst dropna_subset_simps)

lemma fold_key_rows:
  "rows (fst (foldl clean_key_col st ks)) =
     filter (\<lambda>r. \<forall>k\<in>set ks. k \<in> set (columns (fst st)) \<longrightarrow> r k \<noteq> Null) (rows (fst st))"
proof (induction ks arbitrary: st)
  case Nil
  then show ?case by simp
next
  case (Cons k ks)
  have c: "columns (fst (clean_key_col st k)) = columns (fst st)"
    by (simp add: clean_key_col_fst dropna_subset_simps)
  show ?case
    by (simp add: Cons.IH c) (auto simp: clean_key_col_fst dropna_subset_simps intro: filter_cong)
qed

lemma fold_key_steps:
  "\<exists>es. snd (foldl clean_key_col st ks) = snd st @ es \<and>
        (\<forall>e\<in>set es. \<exists>n c. e = Removed_missing n c) \<and>
        (es \<noteq> [] \<longleftrightarrow> length (rows (fst (foldl clean_key_col st ks))) < length (rows (fst st)))"
proof (induction ks arbitrary: st)
  case Nil
  then show ?case by simp
next
  case (Cons k ks)
  let ?st' = "clean_key_col st k"
  from Cons.IH [of ?st'] obtain es where
    es: "snd (foldl clean_key_col ?st' ks) = snd ?st' @ es"
      "\<forall>e\<in>set es. \<exists>n c. e = Removed_missing n c"
      "es \<noteq> [] \<longleftrightarrow> length (rows (fst (foldl clean_key_col ?st' ks))) < length (rows (fst ?st'))"
    by blast
  define e1 where "e1 = (if length (rows (fst ?st')) < length (rows (fst st))
      then [Removed_missing (null_count (fst st) k) k] else [])"
  have s1: "snd ?st' = snd st @ e1" by (simp add: e1_def clean_key_col_snd)
  have le1: "length (rows (fst ?st')) \<le> length (rows (fst st))"
    by (simp add: clean_key_col_fst dropna_subset_simps)
  have le2: "length (rows (fst (foldl clean_key_col ?st' ks))) \<le> length (rows (fst ?st'))"
    by (simp add: fold_key_rows)
  have "snd (foldl clean_key_col st (k # ks)) = snd st @ (e1 @ es)"
    by (simp add: es(1) s1)
  moreover have "\<forall>e\<in>set (e1 @ es). \<exists>n c. e = Removed_missing n c"
    using es(2) by (auto simp: e1_def)
  moreover have "e1 @ es \<noteq> [] \<longleftrightarrow>
      length (rows (fst (foldl clean_key_col st (k # ks)))) < length (rows (fst st))"
    using es(3) le1 le2 by (auto simp: e1_def)
  ultimately show ?case by blast
qed

lemma stage_simps:
  "stage1 df = dropna_all_columns df"
  "stage2 df = drop_columns (high_missing (stage1 df)) (stage1 df)"
  "stage3 df = drop_duplicates (stage2 df)"
  "stage4 df = fst (clean_key_columns (stage3 df, []))"
proof -
  show 1: "stage1 df = dropna_all_columns df"
    by (simp add: stage1_def remove_empty_columns_eq)
  show 2: "stage2 df = drop_columns (high_missing (stage1 df)) (stage1 df)"
    by (simp add: stage2_def 1 remove_empty_columns_eq remove_high_missing_eq)
  show 3: "stage3 df = drop_duplicates (stage2 df)"
    by (simp add: stage3_def 2 1 remove_empty_columns_eq remove_high_missing_eq
        remove_duplicates_eq)
  have "fst (foldl clean_key_col st key_cols) = fst (foldl clean_key_col (fst st, []) key_cols)"
    for st :: "frame \<times> step list"
    by (simp add: key_cols_def clean_key_col_fst)
  then show "stage4 df = fst (clean_key_columns (stage3 df, []))"
    unfolding stage4_def removal_steps_def clean_key_columns_def stage3_def
    by (metis fst_conv)
qed

lemma stage_columns:
  "columns (stage1 df) = filter (\<lambda>c. \<exists>r\<in>set (rows df). r c \<noteq> Null) (columns df)"
  "columns (stage2 df) = filter (\<lambda>c. c \<notin> set (high_missing (stage1 df))) (columns (stage1 df))"
  "columns (stage3 df) = columns (stage2 df)"
  "columns (stage4 df) = columns (stage2 df)"
  by (simp_all add: stage_simps dropna_all_columns_simps drop_columns_simps
      drop_duplicates_simps clean_key_columns_def fold_key_columns)

lemma stage_rows:
  "rows (stage1 df) = rows df"
  "rows (stage2 df) = rows df"
  "length (rows (stage3 df)) \<le> length (rows df)"
  "set (rows (stage3 df)) \<subseteq> set (rows df)"
  "rows (stage4 df) =
     filter (\<lambda>r. \<forall>k\<in>set key_cols. k \<in> set (columns (stage2 df)) \<longrightarrow> r k \<noteq> Null)
       (rows (stage3 df))"
proof -
  show 1: "rows (stage1 df) = rows df" by (simp add: stage_simps dropna_all_columns_simps)
  show 2: "rows (stage2 df) = rows df" by (simp add: stage_simps(2) drop_columns_simps 1)
  show "length (rows (stage3 df)) \<le> length (rows df)"
    using drop_duplicates_simps(2) [of "stage2 df"] by (simp add: stage_simps(3) 2)
  show "set (rows (stage3 df)) \<subseteq> set (rows df)"
    using drop_duplicates_simps(3) [of "stage2 df"] by (simp add: stage_simps(3) 2)
  show "rows (stage4 df) =
     filter (\<lambda>r. \<forall>k\<in>set key_cols. k \<in> set (columns (stage2 df)) \<longrightarrow> r k \<noteq> Null)
       (rows (stage3 df))"
    by (simp add: stage_simps(4) clean_key_columns_def fold_key_rows stage_columns(3))
qed

lemma removal_steps_eq:
  "\<exists>e4. removal_steps df =
     (stage4 df,
      (if length (columns (stage1 df)) < length (columns df)
       then [Removed_empty (length (columns df) - length (columns (stage1 df)))] else [])
      @ (if length (columns (stage2 df)) < length (columns (stage1 df))
         then [Removed_high_missing (length (high_missing (stage1 df)))] else [])
      @ (if length (rows (stage3 df)) < length (rows (stage2 df))
         then [Removed_dupes (length (rows (stage2 df)) - length (rows (stage3 df)))] else [])
      @ e4) \<and>
     (\<forall>e\<in>set e4. \<exists>n c. e = Removed_missing n c) \<and>
     (e4 \<noteq> [] \<longleftrightarrow> length (rows (stage4 df)) < length (rows (stage3 df)))"
proof -
  define e123 where "e123 =
      (if length (columns (stage1 df)) < length (columns df)
       then [Removed_empty (length (columns df) - length (columns (stage1 df)))] else [])
      @ (if length (columns (stage2 df)) < length (columns (stage1 df))
         then [Removed_high_missing (length (high_missing (stage1 df)))] else [])
      @ (if length (rows (stage3 df)) < length (rows (stage2 df))
         then [Removed_dupes (length (rows (stage2 df)) - length (rows (stage3 df)))] else [])"
  have three: "remove_duplicates (remove_high_missing (remove_empty_columns (df, [])))
      = (stage3 df, e123)"
    unfolding e123_def
    by (simp add: remove_empty_columns_eq remove_high_missing_eq remove_duplicates_eq
        stage_simps drop_high_missing_length)
  from fold_key_steps [of "(stage3 df, e123)" key_cols] obtain e4 where
    e4: "snd (foldl clean_key_col (stage3 df, e123) key_cols) = e123 @ e4"
      "\<forall>e\<in>set e4. \<exists>n c. e = Removed_missing n c"
      "e4 \<noteq> [] \<longleftrightarrow> length (rows (fst (foldl clean_key_col (stage3 df, e123) key_cols)))
         < length (rows (stage3 df))"
    by auto
  have f: "fst (foldl clean_key_col (stage3 df, e123) key_cols) = stage4 df"
    by (simp add: stage4_def removal_steps_def three clean_key_columns_def)
  have "removal_steps df = (stage4 df, e123 @ e4)"
    using e4(1) f
    by (simp add: removal_steps_def three clean_key_columns_def prod_eq_iff)
  with e4(2,3) f show ?thesis unfolding e123_def by auto
qed

lemma convert_rows_compute:
  "convert_rows col rs = compute_rows col (\<lambda>r. convert_cell (r col)) rs"
  by (induction rs) (simp_all split: option.splits)

lemma convert_percentage_Some:
  assumes "convert_percentage col (df, steps) = Some (df', steps')"
  shows "columns df' = columns df"
    and "steps' = steps @ (if col \<in> set (columns df) then [Converted col] else [])"
    and "list_all2 (\<lambda>r r'. convert_in_row col (columns df) r = Some r') (rows df) (rows df')"
proof -
  show "columns df' = columns df"
    using assms by (auto simp: convert_percentage_def Let_def split: if_splits option.splits)
  show "steps' = steps @ (if col \<in> set (columns df) then [Converted col] else [])"
    using assms by (auto simp: convert_percentage_def Let_def split: if_splits option.splits)
  show "list_all2 (\<lambda>r r'. convert_in_row col (columns df) r = Some r') (rows df) (rows df')"
  proof (cases "col \<in> set (columns df)")
    case True
    with assms have "convert_rows col (rows df) = Some (rows df')"
      by (auto simp: convert_percentage_def Let_def split: option.splits)
    then have "list_all2 (\<lambda>r r'. \<exists>v. convert_cell (r col) = Some v \<and> r' = r(col := v))
        (rows df) (rows df')"
      by (simp add: convert_rows_compute compute_rows_Some)
    with True show ?thesis
      by (auto simp: convert_in_row_def elim!: list_all2_mono)
  next
    case False
    with assms have "df' = df" by (simp add: convert_percentage_def Let_def)
    with False show ?thesis by (simp add: convert_in_row_def list_all2_same)
  qed
qed

lemma convert_percentages_Some:
  assumes "convert_percentages (df, steps) = Some (df', steps')"
  shows "columns df' = columns df"
    and "steps' = steps @ (if ''int_rate'' \<in> set (columns df) then [Converted ''int_rate''] else [])
            @ (if ''revol_util'' \<in> set (columns df) then [Converted ''revol_util''] else [])"
    and "list_all2 (\<lambda>r r'. convert_row (columns df) r = Some r') (rows df) (rows df')"
proof -
  from assms obtain df1 steps1 where
    one: "convert_percentage ''int_rate'' (df, steps) = Some (df1, steps1)"
    and two: "convert_percentage ''revol_util'' (df1, steps1) = Some (df', steps')"
    by (auto simp: convert_percentages_def split: option.splits)
  note a = convert_percentage_Some [OF one]
  note b = convert_percentage_Some [OF two]
  show "columns df' = columns df" by (simp add: a(1) b(1))
  show "steps' = steps @ (if ''int_rate'' \<in> set (columns df) then [Converted ''int_rate''] else [])
            @ (if ''revol_util'' \<in> set (columns df) then [Converted ''revol_util''] else [])"
    by (simp add: a(1,2) b(2))
  show "list_all2 (\<lambda>r r'. convert_row (columns df) r = Some r') (rows df) (rows df')"
  proof (rule list_all2_all_nthI)
    show "length (rows df) = length (rows df')"
      using a(3) b(3) by (simp add: list_all2_lengthD)
  next
    fix i assume i: "i < length (rows df)"
    with a(3) have "convert_in_row ''int_rate'' (columns df) (rows df ! i) = Some (rows df1 ! i)"
      by (simp add: list_all2_conv_all_nth)
    moreover from a(3) i have "i < length (rows df1)" by (simp add: list_all2_lengthD)
    with b(3) have "convert_in_row ''revol_util'' (columns df) (rows df1 ! i) = Some (rows df' ! i)"
      by (simp add: list_all2_conv_all_nth a(1))
    ultimately show "convert_row (columns df) (rows df ! i) = Some (rows df' ! i)"
      by (simp add: convert_row_def)
  qed
qed

lemma cleaning_Some:
  assumes "cleaning df = Some (out, steps)"
  shows "columns out = columns (stage4 df)"
    and "list_all2 (\<lambda>r r'. convert_row (columns (stage4 df)) r = Some r')
           (rows (stage4 df)) (rows out)"
    and "\<exists>e4. steps =
      (if length (columns (stage1 df)) < length (columns df)
       then [Removed_empty (length (columns df) - length (columns (stage1 df)))] else [])
      @ (if length (columns (stage2 df)) < length (columns (stage1 df))
         then [Removed_high_missing (length (high_missing (stage1 df)))] else [])
      @ (if length (rows (stage3 df)) < length (rows (stage2 df))
         then [Removed_dupes (length (rows (stage2 df)) - length (rows (stage3 df)))] else [])
      @ e4
      @ (if ''int_rate'' \<in> set (columns (stage4 df)) then [Converted ''int_rate''] else [])
      @ (if ''revol_util'' \<in> set (columns (stage4 df)) then [Converted ''revol_util''] else [])
      \<and> (\<forall>e\<in>set e4. \<exists>n c. e = Removed_missing n c)
      \<and> (e4 \<noteq> [] \<longleftrightarrow> length (rows (stage4 df)) < length (rows (stage3 df)))"
proof -
  from removal_steps_eq [of df] obtain e4 s123 where
    r: "removal_steps df = (stage4 df, s123 @ e4)"
    and s123: "s123 = (if length (columns (stage1 df)) < length (columns df)
       then [Removed_empty (length (columns df) - length (columns (stage1 df)))] else [])
      @ (if length (columns (stage2 df)) < length (columns (stage1 df))
         then [Removed_high_missing (length (high_missing (stage1 df)))] else [])
      @ (if length (rows (stage3 df)) < length (rows (stage2 df))
         then [Removed_dupes (length (rows (stage2 df)) - length (rows (stage3 df)))] else [])"
    and e4: "\<forall>e\<in>set e4. \<exists>n c. e = Removed_missing n c"
      "e4 \<noteq> [] \<longleftrightarrow> length (rows (stage4 df)) < length (rows (stage3 df))"
    by auto
  from assms r have c: "convert_percentages (stage4 df, s123 @ e4) = Some (out, steps)"
    by (simp add: cleaning_def)
  note p = convert_percentages_Some [OF c]
  show "columns out = columns (stage4 df)" by (rule p(1))
  show "list_all2 (\<lambda>r r'. convert_row (columns (stage4 df)) r = Some r')
           (rows (stage4 df)) (rows out)" by (rule p(3))
  from p(2) e4 show "\<exists>e4. steps =
      (if length (columns (stage1 df)) < length (columns df)
       then [Removed_empty (length (columns df) - length (columns (stage1 df)))] else [])
      @ (if length (columns (stage2 df)) < length (columns (stage1 df))
         then [Removed_high_missing (length (high_missing (stage1 df)))] else [])
      @ (if length (rows (stage3 df)) < length (rows (stage2 df))
         then [Removed_dupes (length (rows (stage2 df)) - length (rows (stage3 df)))] else [])
      @ e4
      @ (if ''int_rate'' \<in> set (columns (stage4 df)) then [Converted ''int_rate''] else [])
      @ (if ''revol_util'' \<in> set (columns (stage4 df)) then [Converted ''revol_util''] else [])
      \<and> (\<forall>e\<in>set e4. \<exists>n c. e = Removed_missing n c)
      \<and> (e4 \<noteq> [] \<longleftrightarrow> length (rows (stage4 df)) < length (rows (stage3 df)))"
    unfolding s123 by (intro exI [of _ e4]) simp
qed

lemma cleaning_main_Some:
  assumes "cleaning_main now df = Some (out, report)"
  shows "\<exists>steps. cleaning df = Some (out, steps) \<and>
           report = cleaning_report now (shape df) (shape out) steps"
  using assms by (auto simp: cleaning_main_def Let_def split: option.splits)

lemmas cleaning_defs =
  cleaning_def removal_steps_def remove_empty_columns_def dropna_all_columns_def
  remove_high_missing_def high_missing_def drop_columns_def null_count_def column_values_def
  remove_duplicates_def drop_duplicates_def row_eq_def clean_key_columns_def key_cols_def
  clean_key_col_def dropna_subset_def convert_percentages_def convert_percentage_def
  convert_cell_def rstrip_percent_def isnull_def

lemmas float_defs =
  py_float_def strip_def is_space_def lower_char_def floatnumber_def mantissa_def
  digitpart_def exponent_def scale10_def is_digit_def nat_of_digits_def digit_val_def

lemma raw_example_cleans: "cleaning raw_example \<noteq> None"
  by (simp add: raw_example_def raw_row_def mk_row_def cleaning_defs float_defs Let_def)

lemma raw_example_cleans_main: "cleaning_main now raw_example \<noteq> None"
  using raw_example_cleans by (auto simp: cleaning_main_def Let_def split: option.splits)

lemma cleaned_row:
  assumes "cleaning df = Some (out, steps)" and "r \<in> set (rows out)"
  shows "\<exists>r4\<in>set (rows (stage4 df)). convert_row (columns out) r4 = Some r"
proof -
  from assms(2) obtain i where i: "i < length (rows out)" and r: "r = rows out ! i"
    by (auto simp: in_set_conv_nth)
  note l = cleaning_Some(2) [OF assms(1)]
  then have len: "length (rows (stage4 df)) = length (rows out)" by (rule list_all2_lengthD)
  from l i len have "convert_row (columns (stage4 df)) (rows (stage4 df) ! i) = Some r"
    by (simp add: list_all2_conv_all_nth r)
  moreover from i len have "rows (stage4 df) ! i \<in> set (rows (stage4 df))" by simp
  ultimately show ?thesis by (auto simp: cleaning_Some(1) [OF assms(1)])
qed

lemma convert_row_other:
  assumes "convert_row cols r = Some r'" and "c \<noteq> ''int_rate''" and "c \<noteq> ''revol_util''"
  shows "r' c = r c"
  using assms
  by (auto simp: convert_row_def convert_in_row_def split: option.splits if_splits)

lemma convert_row_int_rate:
  assumes "convert_row cols r = Some r'" and "''int_rate'' \<in> set cols"
  shows "convert_cell (r ''int_rate'') = Some (r' ''int_rate'')"
  using assms
  by (auto simp: convert_row_def convert_in_row_def split: option.splits if_splits)

lemma convert_row_revol_util:
  assumes "convert_row cols r = Some r'" and "''revol_util'' \<in> set cols"
  shows "convert_cell (r ''revol_util'') = Some (r' ''revol_util'')"
  using assms
  by (auto simp: convert_row_def convert_in_row_def split: option.splits if_splits)

section \<open>The shape of the tables\<close>

text \<open>
  Claim C6. The cleaning never adds a row or a column: the cleaned table has at most the
  rows and at most the columns of the raw table, and each of its columns is a column of
  the raw table. The transformation never removes a column: every column of its input
  is a column of the processed table.
\<close>

theorem C6_shapes:
  "(\<forall>now out report. cleaning_main now raw = Some (out, report) \<longrightarrow>
      length (rows out) \<le> length (rows raw) \<and>
      length (columns out) \<le> length (columns raw) \<and>
      set (columns out) \<subseteq> set (columns raw)) \<and>
   (\<forall>now out report. transformation_main now cleaned_table = Some (out, report) \<longrightarrow>
      set (columns cleaned_table) \<subseteq> set (columns out) \<and>
      length (columns cleaned_table) \<le> length (columns out))"
proof (intro conjI allI impI)
  fix now out report
  assume "cleaning_main now raw = Some (out, report)"
  then obtain steps where c: "cleaning raw = Some (out, steps)"
    using cleaning_main_Some by blast
  have cols: "columns out = columns (stage2 raw)"
    by (simp add: cleaning_Some(1) [OF c] stage_columns(4))
  have "length (rows out) = length (rows (stage4 raw))"
    using cleaning_Some(2) [OF c] by (simp add: list_all2_lengthD)
  also have "\<dots> \<le> length (rows (stage3 raw))" by (simp add: stage_rows(5))
  also have "\<dots> \<le> length (rows raw)" by (rule stage_rows(3))
  finally show "length (rows out) \<le> length (rows raw)" .
  have "length (columns (stage2 raw)) \<le> length (columns (stage1 raw))"
    by (simp add: stage_columns(2))
  also have "\<dots> \<le> length (columns raw)" by (simp add: stage_columns(1))
  finally show "length (columns out) \<le> length (columns raw)" by (simp add: cols)
  show "set (columns out) \<subseteq> set (columns raw)"
    by (auto simp: cols stage_columns(1,2))
next
  fix now out report
  assume "transformation_main now cleaned_table = Some (out, report)"
  then obtain st where st: "transformation cleaned_table = Some st" and out: "out = table st"
    using transformation_main_Some by blast
  from transformation_columns [OF st] out obtain new where
    new: "columns out = columns cleaned_table @ new" by auto
  show "set (columns cleaned_table) \<subseteq> set (columns out)" by (simp add: new)
  show "length (columns cleaned_table) \<le> length (columns out)" by (simp add: new)
qed

text \<open>
  On the raw example table, of six rows and eight columns, and on the cleaned example
  table, of seven columns.
\<close>

theorem C6_shapes_witness:
  "\<exists>out report out' report'.
     cleaning_main ''2024-01-01 00:00:00'' raw_example = Some (out, report) \<and>
     transformation_main ''2024-01-01 00:00:00'' cleaned_example = Some (out', report') \<and>
     length (rows out) \<le> 6 \<and> length (columns out) \<le> 8 \<and>
     set (columns out) \<subseteq> set (columns raw_example) \<and>
     set (columns cleaned_example) \<subseteq> set (columns out') \<and> 7 \<le> length (columns out')"
proof -
  let ?now = "''2024-01-01 00:00:00''"
  obtain out report where c: "cleaning_main ?now raw_example = Some (out, report)"
    using raw_example_cleans_main [of ?now]
    by (cases "cleaning_main ?now raw_example") auto
  obtain out' report' where t: "transformation_main ?now cleaned_example = Some (out', report')"
    using cleaned_example_transforms [of ?now]
    by (cases "transformation_main ?now cleaned_example") auto
  note c6 = C6_shapes [of raw_example cleaned_example]
  from c6 c have "length (rows out) \<le> length (rows raw_example) \<and>
      length (columns out) \<le> length (columns raw_example) \<and>
      set (columns out) \<subseteq> set (columns raw_example)" by blast
  moreover from c6 t have "set (columns cleaned_example) \<subseteq> set (columns out') \<and>
      length (columns cleaned_example) \<le> length (columns out')" by blast
  moreover have "length (rows raw_example) = 6" "length (columns raw_example) = 8"
    by (simp_all add: raw_example_def)
  moreover have "length (columns cleaned_example) = 7" by (simp add: cleaned_example_def)
  ultimately show ?thesis using c t by (intro exI [of _ out] exI [of _ report]
        exI [of _ out'] exI [of _ report']) simp
qed

section \<open>The key columns of the cleaned table\<close>


lemma stage4_row:
  assumes "r \<in> set (rows (stage4 df))"
  shows "r \<in> set (rows df)"
    and "k \<in> set key_cols \<Longrightarrow> k \<in> set (columns (stage4 df)) \<Longrightarrow> r k \<noteq> Null"
proof -
  from assms have a: "r \<in> set (rows (stage3 df))"
    "\<forall>k\<in>set key_cols. k \<in> set (columns (stage2 df)) \<longrightarrow> r k \<noteq> Null"
    by (simp_all add: stage_rows(5))
  from a(1) stage_rows(4) show "r \<in> set (rows df)" by blast
  show "r k \<noteq> Null" if "k \<in> set key_cols" "k \<in> set (columns (stage4 df))"
    using a(2) that by (simp add: stage_columns(4))
qed







section \<open>The steps of the cleaning report\<close>

lemma report_steps:
  "drop 12 (cleaning_report now s1 s2 steps) = map (\<lambda>st. ''- '' @ render_step st) steps"
  by (simp add: cleaning_report_def)

text \<open>
  Claim C7, as the code has it. The lines of the report after its twelve lines of heading
  are the entries of \<^verbatim>\<open>steps\<close>. The removal of empty columns, of columns with more
  than 80% missing, of duplicate rows and of rows with a missing key value each have an
  entry exactly when they removed something. The conversion of \<^verbatim>\<open>int_rate\<close> and of
  \<^verbatim>\<open>revol_util\<close> has an entry exactly when the column is in the table, whether or not
  a value changes.
\<close>

theorem C7_steps_listed:
  assumes "cleaning_main now df = Some (out, report)"
  shows "\<exists>steps. cleaning df = Some (out, steps) \<and>
      drop 12 report = map (\<lambda>st. ''- '' @ render_step st) steps \<and>
      ((\<exists>n. Removed_empty n \<in> set steps)
         \<longleftrightarrow> length (columns (stage1 df)) < length (columns df)) \<and>
      ((\<exists>n. Removed_high_missing n \<in> set steps)
         \<longleftrightarrow> length (columns (stage2 df)) < length (columns (stage1 df))) \<and>
      ((\<exists>n. Removed_dupes n \<in> set steps)
         \<longleftrightarrow> length (rows (stage3 df)) < length (rows (stage2 df))) \<and>
      ((\<exists>n c. Removed_missing n c \<in> set steps)
         \<longleftrightarrow> length (rows (stage4 df)) < length (rows (stage3 df))) \<and>
      (Converted ''int_rate'' \<in> set steps \<longleftrightarrow> ''int_rate'' \<in> set (columns (stage4 df))) \<and>
      (Converted ''revol_util'' \<in> set steps \<longleftrightarrow> ''revol_util'' \<in> set (columns (stage4 df)))"
proof -
  from cleaning_main_Some [OF assms] obtain steps where
    c: "cleaning df = Some (out, steps)"
    and rep: "report = cleaning_report now (shape df) (shape out) steps" by blast
  from cleaning_Some(3) [OF c] obtain e4 where
    steps: "steps =
      (if length (columns (stage1 df)) < length (columns df)
       then [Removed_empty (length (columns df) - length (columns (stage1 df)))] else [])
      @ (if length (columns (stage2 df)) < length (columns (stage1 df))
         then [Removed_high_missing (length (high_missing (stage1 df)))] else [])
      @ (if length (rows (stage3 df)) < length (rows (stage2 df))
         then [Removed_dupes (length (rows (stage2 df)) - length (rows (stage3 df)))] else [])
      @ e4
      @ (if ''int_rate'' \<in> set (columns (stage4 df)) then [Converted ''int_rate''] else [])
      @ (if ''revol_util'' \<in> set (columns (stage4 df)) then [Converted ''revol_util''] else [])"
    and e4: "\<forall>e\<in>set e4. \<exists>n c. e = Removed_missing n c"
      "e4 \<noteq> [] \<longleftrightarrow> length (rows (stage4 df)) < length (rows (stage3 df))"
    by blast
  have set_e4: "Removed_empty n \<notin> set e4" "Removed_high_missing n \<notin> set e4"
    "Removed_dupes n \<notin> set e4" "Converted c \<notin> set e4" for n c
    using e4(1) by auto
  have in_e4: "(\<exists>n c. Removed_missing n c \<in> set e4) \<longleftrightarrow> e4 \<noteq> []"
  proof
    assume "e4 \<noteq> []"
    then obtain e where e: "e \<in> set e4" by (cases e4) auto
    with e4(1) obtain n c where "e = Removed_missing n c" by blast
    with e show "\<exists>n c. Removed_missing n c \<in> set e4" by blast
  qed auto
  have a: "(\<exists>n. Removed_empty n \<in> set steps)
      \<longleftrightarrow> length (columns (stage1 df)) < length (columns df)"
    using set_e4 by (auto simp: steps)
  have b: "(\<exists>n. Removed_high_missing n \<in> set steps)
      \<longleftrightarrow> length (columns (stage2 df)) < length (columns (stage1 df))"
    using set_e4 by (auto simp: steps)
  have d: "(\<exists>n. Removed_dupes n \<in> set steps)
      \<longleftrightarrow> length (rows (stage3 df)) < length (rows (stage2 df))"
    using set_e4 by (auto simp: steps)
  have m: "(\<exists>n c. Removed_missing n c \<in> set steps)
      \<longleftrightarrow> length (rows (stage4 df)) < length (rows (stage3 df))"
    using in_e4 e4(2) by (auto simp: steps)
  have i: "Converted ''int_rate'' \<in> set steps \<longleftrightarrow> ''int_rate'' \<in> set (columns (stage4 df))"
    using set_e4 by (auto simp: steps)
  have u: "Converted ''revol_util'' \<in> set steps \<longleftrightarrow> ''revol_util'' \<in> set (columns (stage4 df))"
    using set_e4 by (auto simp: steps)
  from c rep report_steps a b d m i u show ?thesis by blast
qed

text \<open>
  Claim C7 as it is stated lists a step only when it had an effect. A raw table whose
  \<^verbatim>\<open>int_rate\<close> is a number already comes out of the cleaning as it went in, and the
  conversion is listed.
\<close>

theorem C7_unchanged_counterexample:
  "cleaning numeric_example = Some (numeric_example, [Converted ''int_rate''])"
  by (simp add: numeric_example_def mk_row_def cleaning_defs float_defs Let_def
      fun_upd_idem_iff)

text \<open>
  On the raw example table every step has an entry: one empty column, one column with more
  than 80% missing, one duplicate row and one row with no loan amount are removed, and
  both percentages are converted.
\<close>

lemma raw_example_steps:
  "map_option snd (cleaning raw_example) =
     Some [Removed_empty 1, Removed_high_missing 1, Removed_dupes 1,
           Removed_missing 1 ''loan_amnt'', Converted ''int_rate'', Converted ''revol_util'']"
  by (simp add: raw_example_def raw_row_def mk_row_def cleaning_defs float_defs Let_def)

theorem C7_steps_listed_witness:
  "\<exists>out report steps.
     cleaning_main ''2024-01-01 00:00:00'' raw_example = Some (out, report) \<and>
     cleaning raw_example = Some (out, steps) \<and>
     steps = [Removed_empty 1, Removed_high_missing 1, Removed_dupes 1,
              Removed_missing 1 ''loan_amnt'', Converted ''int_rate'', Converted ''revol_util''] \<and>
     drop 12 report = map (\<lambda>st. ''- '' @ render_step st) steps \<and>
     length (columns (stage1 raw_example)) < length (columns raw_example) \<and>
     length (columns (stage2 raw_example)) < length (columns (stage1 raw_example)) \<and>
     length (rows (stage3 raw_example)) < length (rows (stage2 raw_example)) \<and>
     length (rows (stage4 raw_example)) < length (rows (stage3 raw_example)) \<and>
     ''int_rate'' \<in> set (columns (stage4 raw_example)) \<and>
     ''revol_util'' \<in> set (columns (stage4 raw_example))"
proof -
  let ?now = "''2024-01-01 00:00:00''"
  obtain out report where c: "cleaning_main ?now raw_example = Some (out, report)"
    using raw_example_cleans_main [of ?now]
    by (cases "cleaning_main ?now raw_example") auto
  from C7_steps_listed [OF c] obtain steps where
    s: "cleaning raw_example = Some (out, steps)"
    and rep: "drop 12 report = map (\<lambda>st. ''- '' @ render_step st) steps"
    and a: "(\<exists>n. Removed_empty n \<in> set steps)
         \<longleftrightarrow> length (columns (stage1 raw_example)) < length (columns raw_example)"
    and b: "(\<exists>n. Removed_high_missing n \<in> set steps)
         \<longleftrightarrow> length (columns (stage2 raw_example)) < length (columns (stage1 raw_example))"
    and d: "(\<exists>n. Removed_dupes n \<in> set steps)
         \<longleftrightarrow> length (rows (stage3 raw_example)) < length (rows (stage2 raw_example))"
    and m: "(\<exists>n c. Removed_missing n c \<in> set steps)
         \<longleftrightarrow> length (rows (stage4 raw_example)) < length (rows (stage3 raw_example))"
    and i: "Converted ''int_rate'' \<in> set steps
         \<longleftrightarrow> ''int_rate'' \<in> set (columns (stage4 raw_example))"
    and u: "Converted ''revol_util'' \<in> set steps
         \<longleftrightarrow> ''revol_util'' \<in> set (columns (stage4 raw_example))"
    by blast
  from s raw_example_steps have steps: "steps =
      [Removed_empty 1, Removed_high_missing 1, Removed_dupes 1,
       Removed_missing 1 ''loan_amnt'', Converted ''int_rate'', Converted ''revol_util'']"
    by simp
  have "\<exists>n. Removed_empty n \<in> set steps" "\<exists>n. Removed_high_missing n \<in> set steps"
    "\<exists>n. Removed_dupes n \<in> set steps" "\<exists>n c. Removed_missing n c \<in> set steps"
    "Converted ''int_rate'' \<in> set steps" "Converted ''revol_util'' \<in> set steps"
    by (simp_all add: steps)
  with a b d m i u c s steps rep show ?thesis by blast
qed

section \<open>The cleaning as a function of its input\<close>


lemma row_eq_at: "row_eq cols r s \<Longrightarrow> c \<in> set cols \<Longrightarrow> r c = s c"
  by (simp add: row_eq_def list_all_iff)

lemma row_eq_subset: "row_eq cols r s \<Longrightarrow> set cs \<subseteq> set cols \<Longrightarrow> row_eq cs r s"
  by (auto simp: row_eq_def list_all_iff)

lemma same_table_columns: "same_table a b \<Longrightarrow> columns a = columns b"
  by (simp add: same_table_def)

lemma same_table_rows: "same_table a b \<Longrightarrow> list_all2 (row_eq (columns a)) (rows a) (rows b)"
  unfolding same_table_def by blast

lemma same_table_intro:
  "columns a = columns b \<Longrightarrow> list_all2 (row_eq (columns a)) (rows a) (rows b) \<Longrightarrow> same_table a b"
  unfolding same_table_def by blast

lemma same_table_length: "same_table a b \<Longrightarrow> length (rows a) = length (rows b)"
  by (auto simp: same_table_def dest: list_all2_lengthD)

lemma same_table_values:
  assumes "same_table a b" and "c \<in> set (columns a)"
  shows "column_values a c = column_values b c"
proof -
  note l0 = same_table_rows [OF assms(1)]
  then have "map (\<lambda>r. r c) (rows a) = map (\<lambda>r. r c) (rows b)"
    by (induction rule: list_all2_induct) (simp_all add: row_eq_at [OF _ assms(2)])
  then show ?thesis by (simp add: column_values_def)
qed

lemma same_table_null_count:
  "same_table a b \<Longrightarrow> c \<in> set (columns a) \<Longrightarrow> null_count a c = null_count b c"
  by (simp add: null_count_def same_table_values)

lemma same_table_select:
  assumes "same_table a b" and "set cs \<subseteq> set (columns a)"
  shows "same_table (a\<lparr>columns := cs\<rparr>) (b\<lparr>columns := cs\<rparr>)"
proof -
  note l0 = same_table_rows [OF assms(1)]
  then have "list_all2 (row_eq cs) (rows a) (rows b)"
    by (rule list_all2_mono) (rule row_eq_subset [OF _ assms(2)])
  then show ?thesis by (simp add: same_table_def)
qed

lemma list_ex_column:
  "list_ex (\<lambda>r. \<not> isnull (r c)) (rows df) = list_ex (\<lambda>v. \<not> isnull v) (column_values df c)"
  by (simp add: column_values_def list_ex_iff)

lemma dropna_all_columns_same:
  assumes "same_table a b"
  shows "same_table (dropna_all_columns a) (dropna_all_columns b)"
proof -
  let ?keep = "\<lambda>df c. list_ex (\<lambda>r. \<not> isnull (r c)) (rows df)"
  have "filter (?keep a) (columns a) = filter (?keep b) (columns a)"
    by (rule filter_cong [OF refl]) (simp add: list_ex_column same_table_values [OF assms])
  then have "dropna_all_columns b = b\<lparr>columns := filter (?keep a) (columns a)\<rparr>"
    by (simp add: dropna_all_columns_def same_table_columns [OF assms, symmetric])
  moreover have "dropna_all_columns a = a\<lparr>columns := filter (?keep a) (columns a)\<rparr>"
    by (simp add: dropna_all_columns_def)
  ultimately show ?thesis
    using same_table_select [OF assms, of "filter (?keep a) (columns a)"] by simp
qed

lemma high_missing_same:
  assumes "same_table a b"
  shows "high_missing a = high_missing b"
  unfolding high_missing_def same_table_columns [OF assms, symmetric]
    same_table_length [OF assms, symmetric]
  by (rule filter_cong [OF refl]) (simp add: same_table_null_count [OF assms])

lemma drop_columns_same:
  assumes "same_table a b"
  shows "same_table (drop_columns cs a) (drop_columns cs b)"
  using same_table_select [OF assms, of "filter (\<lambda>c. c \<notin> set cs) (columns a)"]
  by (simp add: drop_columns_def same_table_columns [OF assms, symmetric])

lemma list_ex_row_eq_same:
  assumes "row_eq cols r r'" and "list_all2 (row_eq cols) seen seen'"
  shows "list_ex (row_eq cols r) seen = list_ex (row_eq cols r') seen'"
  using assms(2)
proof (induction rule: list_all2_induct)
  case Nil
  then show ?case by simp
next
  case (Cons s seen s' seen')
  from assms(1) Cons.hyps(1) have "row_eq cols r s = row_eq cols r' s'"
    by (auto simp: row_eq_def list_all_iff)
  with Cons.IH show ?case by simp
qed

lemma dedup_rows_same:
  assumes "list_all2 (row_eq cols) rs rs'" and "list_all2 (row_eq cols) seen seen'"
  shows "list_all2 (row_eq cols) (dedup_rows cols seen rs) (dedup_rows cols seen' rs')"
  using assms
proof (induction arbitrary: seen seen' rule: list_all2_induct)
  case Nil
  then show ?case by simp
next
  case (Cons r rs r' rs')
  note ex = list_ex_row_eq_same [OF Cons.hyps(1) Cons.prems]
  show ?case
  proof (cases "list_ex (row_eq cols r) seen")
    case True
    with ex Cons.IH [OF Cons.prems] show ?thesis by simp
  next
    case False
    from Cons.hyps(1) Cons.prems have "list_all2 (row_eq cols) (r # seen) (r' # seen')"
      by simp
    from Cons.IH [OF this] False ex Cons.hyps(1) show ?thesis by simp
  qed
qed

lemma drop_duplicates_same:
  assumes "same_table a b"
  shows "same_table (drop_duplicates a) (drop_duplicates b)"
proof -
  note c = same_table_columns [OF assms]
  from same_table_length [OF assms] have e: "rows a = [] \<longleftrightarrow> rows b = []" by auto
  note l = same_table_rows [OF assms]
  show ?thesis
  proof (cases "columns a = [] \<or> rows a = []")
    case True
    with c e assms show ?thesis by (simp add: drop_duplicates_def)
  next
    case False
    with c e have "drop_duplicates a = a\<lparr>rows := dedup_rows (columns a) [] (rows a)\<rparr>"
      "drop_duplicates b = b\<lparr>rows := dedup_rows (columns a) [] (rows b)\<rparr>"
      by (simp_all add: drop_duplicates_def)
    with dedup_rows_same [OF l, of "[]" "[]"] c show ?thesis
      by (simp add: same_table_def)
  qed
qed

lemma list_all2_filter_same:
  assumes "list_all2 R xs ys" and "\<And>x y. R x y \<Longrightarrow> P x = Q y"
  shows "list_all2 R (filter P xs) (filter Q ys)"
  using assms(1)
  by (induction rule: list_all2_induct) (auto dest: assms(2))

lemma dropna_subset_same:
  assumes "same_table a b" and "k \<in> set (columns a)"
  shows "same_table (dropna_subset k a) (dropna_subset k b)"
proof -
  note l = same_table_rows [OF assms(1)]
  have "list_all2 (row_eq (columns a)) (filter (\<lambda>r. \<not> isnull (r k)) (rows a))
      (filter (\<lambda>r. \<not> isnull (r k)) (rows b))"
    using l by (rule list_all2_filter_same) (simp add: row_eq_at [OF _ assms(2)])
  then show ?thesis
    by (simp add: same_table_def dropna_subset_def same_table_columns [OF assms(1), symmetric])
qed

lemma remove_empty_columns_same:
  assumes "same_result st st'"
  shows "same_result (remove_empty_columns st) (remove_empty_columns st')"
proof -
  from assms have t: "same_table (fst st) (fst st')" and s: "snd st = snd st'"
    by (simp_all add: same_result_def)
  note d = dropna_all_columns_same [OF t]
  from same_table_columns [OF t] same_table_columns [OF d] d s show ?thesis
    by (simp add: same_result_def remove_empty_columns_def Let_def)
qed

lemma remove_high_missing_same:
  assumes "same_result st st'"
  shows "same_result (remove_high_missing st) (remove_high_missing st')"
proof -
  from assms have t: "same_table (fst st) (fst st')" and s: "snd st = snd st'"
    by (simp_all add: same_result_def)
  from high_missing_same [OF t] drop_columns_same [OF t] s show ?thesis
    by (simp add: same_result_def remove_high_missing_def Let_def)
qed

lemma remove_duplicates_same:
  assumes "same_result st st'"
  shows "same_result (remove_duplicates st) (remove_duplicates st')"
proof -
  from assms have t: "same_table (fst st) (fst st')" and s: "snd st = snd st'"
    by (simp_all add: same_result_def)
  note d = drop_duplicates_same [OF t]
  from same_table_length [OF t] same_table_length [OF d] d s show ?thesis
    by (simp add: same_result_def remove_duplicates_def Let_def)
qed

lemma clean_key_col_same:
  assumes "same_result st st'"
  shows "same_result (clean_key_col st k) (clean_key_col st' k)"
proof -
  from assms have t: "same_table (fst st) (fst st')" and s: "snd st = snd st'"
    by (simp_all add: same_result_def)
  note c = same_table_columns [OF t]
  show ?thesis
  proof (cases "k \<in> set (columns (fst st))")
    case True
    from same_table_null_count [OF t True] dropna_subset_same [OF t True] True c t s
    show ?thesis by (simp add: same_result_def clean_key_col_def Let_def)
  next
    case False
    with c t s show ?thesis by (simp add: same_result_def clean_key_col_def Let_def)
  qed
qed

lemma clean_key_columns_same:
  assumes "same_result st st'"
  shows "same_result (clean_key_columns st) (clean_key_columns st')"
proof -
  have "same_result (foldl clean_key_col st ks) (foldl clean_key_col st' ks)" for ks
    using assms by (induction ks arbitrary: st st') (simp_all add: clean_key_col_same)
  then show ?thesis by (simp add: clean_key_columns_def)
qed

lemma removal_steps_same:
  assumes "same_table a b"
  shows "same_result (removal_steps a) (removal_steps b)"
proof -
  from assms have "same_result (a, []) (b, [])" by (simp add: same_result_def)
  then show ?thesis
    unfolding removal_steps_def
    by (intro clean_key_columns_same remove_duplicates_same remove_high_missing_same
        remove_empty_columns_same)
qed

lemma convert_rows_same:
  assumes "list_all2 (row_eq cols) rs rs'" and "col \<in> set cols"
  shows "rel_option (list_all2 (row_eq cols)) (convert_rows col rs) (convert_rows col rs')"
  using assms(1)
proof (induction rule: list_all2_induct)
  case Nil
  then show ?case by simp
next
  case (Cons r rs r' rs')
  from row_eq_at [OF Cons.hyps(1) assms(2)] have v: "r' col = r col" by simp
  show ?case
  proof (cases "convert_cell (r col)")
    case None
    with v show ?thesis by simp
  next
    case (Some v')
    from Cons.hyps(1) have "row_eq cols (r(col := v')) (r'(col := v'))"
      by (simp add: row_eq_def list_all_iff)
    with Cons.IH Some v show ?thesis
      by (cases "convert_rows col rs"; cases "convert_rows col rs'") simp_all
  qed
qed

lemma convert_percentage_same:
  assumes "same_result st st'"
  shows "rel_option same_result (convert_percentage col st) (convert_percentage col st')"
proof -
  from assms have t: "same_table (fst st) (fst st')" and s: "snd st = snd st'"
    by (simp_all add: same_result_def)
  note c = same_table_columns [OF t]
  show ?thesis
  proof (cases "col \<in> set (columns (fst st))")
    case True
    note l0 = same_table_rows [OF t]
    from convert_rows_same [OF this True] True c s show ?thesis
      by (cases "convert_rows col (rows (fst st))"; cases "convert_rows col (rows (fst st'))")
        (simp_all add: convert_percentage_def Let_def same_result_def same_table_def)
  next
    case False
    with c t s show ?thesis
      by (simp add: convert_percentage_def Let_def same_result_def)
  qed
qed

lemma cleaning_same:
  assumes "same_table a b"
  shows "rel_option same_result (cleaning a) (cleaning b)"
proof -
  note r = removal_steps_same [OF assms]
  note one = convert_percentage_same [OF r, of "''int_rate''"]
  show ?thesis
  proof (cases "convert_percentage ''int_rate'' (removal_steps a)")
    case None
    with one show ?thesis
      by (cases "convert_percentage ''int_rate'' (removal_steps b)")
        (simp_all add: cleaning_def convert_percentages_def)
  next
    case (Some st)
    with one obtain st' where
      st': "convert_percentage ''int_rate'' (removal_steps b) = Some st'"
      and same: "same_result st st'"
      by (cases "convert_percentage ''int_rate'' (removal_steps b)") simp_all
    from convert_percentage_same [OF same, of "''revol_util''"] Some st' show ?thesis
      by (simp add: cleaning_def convert_percentages_def)
  qed
qed

lemma same_table_refl: "same_table a a"
  by (simp add: same_table_def list_all2_same row_eq_def list_all_iff)





section \<open>Cleaning a cleaned table\<close>

lemma row_eq_sym: "row_eq cols r s = row_eq cols s r"
  by (auto simp: row_eq_def list_all_iff)

lemma dedup_rows_distinct:
  assumes "distinct_rows cols rs" and "\<forall>r\<in>set rs. \<not> list_ex (row_eq cols r) seen"
  shows "dedup_rows cols seen rs = rs"
  using assms
proof (induction rs arbitrary: seen)
  case Nil
  then show ?case by simp
next
  case (Cons r rs)
  from Cons.prems(1) have d: "\<not> list_ex (row_eq cols r) rs" "distinct_rows cols rs" by simp_all
  have "\<forall>r'\<in>set rs. \<not> list_ex (row_eq cols r') (r # seen)"
  proof
    fix r' assume r': "r' \<in> set rs"
    with d(1) have "\<not> row_eq cols r r'" by (auto simp: list_ex_iff)
    then have "\<not> row_eq cols r' r" by (simp add: row_eq_sym)
    with Cons.prems(2) r' show "\<not> list_ex (row_eq cols r') (r # seen)" by simp
  qed
  with Cons.IH [OF d(2)] have "dedup_rows cols (r # seen) rs = rs" by blast
  with Cons.prems(2) show ?case by simp
qed

lemma py_float_not_str: "py_float s = Some v \<Longrightarrow> \<not> is_str v"
  by (auto simp: py_float_def Let_def is_str_def split: if_splits)

lemma convert_cell_not_str:
  assumes "convert_cell v = Some v'"
  shows "\<not> is_str v'"
  using assms py_float_not_str
  by (cases v) (auto simp: convert_cell_def is_str_def)

lemma convert_cell_id: "\<not> is_str v \<Longrightarrow> convert_cell v = Some v"
  by (cases v) (simp_all add: convert_cell_def is_str_def)

lemma convert_rows_id:
  assumes "\<forall>r\<in>set rs. \<not> is_str (r col)"
  shows "convert_rows col rs = Some rs"
  using assms by (induction rs) (simp_all add: convert_cell_id)

lemma convert_percentage_id:
  assumes "col \<in> set (columns df) \<longrightarrow> (\<forall>r\<in>set (rows df). \<not> is_str (r col))"
  shows "convert_percentage col (df, steps) =
           Some (df, steps @ (if col \<in> set (columns df) then [Converted col] else []))"
  using assms by (auto simp: convert_percentage_def Let_def convert_rows_id)

lemma cleaned_not_str:
  assumes "cleaning df = Some (out, steps)" and "r \<in> set (rows out)"
  shows "''int_rate'' \<in> set (columns out) \<Longrightarrow> \<not> is_str (r ''int_rate'')"
    and "''revol_util'' \<in> set (columns out) \<Longrightarrow> \<not> is_str (r ''revol_util'')"
proof -
  from cleaned_row [OF assms] obtain r4 where
    conv: "convert_row (columns out) r4 = Some r" by blast
  show "\<not> is_str (r ''int_rate'')" if "''int_rate'' \<in> set (columns out)"
    using convert_row_int_rate [OF conv that] by (rule convert_cell_not_str)
  show "\<not> is_str (r ''revol_util'')" if "''revol_util'' \<in> set (columns out)"
    using convert_row_revol_util [OF conv that] by (rule convert_cell_not_str)
qed

lemma cleaned_keys:
  assumes "cleaning df = Some (out, steps)" and "r \<in> set (rows out)"
    and "k \<in> set key_cols" and "k \<noteq> ''int_rate''" and "k \<in> set (columns out)"
  shows "r k \<noteq> Null"
proof -
  from cleaned_row [OF assms(1,2)] obtain r4 where
    r4: "r4 \<in> set (rows (stage4 df))" and conv: "convert_row (columns out) r4 = Some r"
    by blast
  from assms(3) have "k \<noteq> ''revol_util''" by (auto simp: key_cols_def)
  from convert_row_other [OF conv assms(4) this] have "r k = r4 k" .
  moreover from stage4_row(2) [OF r4 assms(3)] assms(5) have "r4 k \<noteq> Null"
    by (simp add: cleaning_Some(1) [OF assms(1)])
  ultimately show ?thesis by simp
qed

lemma frame_columns_same: "df\<lparr>columns := columns df\<rparr> = df"
  by simp

text \<open>
  Claim C5, as the code has it. The second run returns the data of the first cleaned
  table, the same columns with the same values in every row, when the file of the first
  run is read back with the data that was written, and the cleaned table has a value in
  every column, no column with more than 80% missing, no two equal rows and no missing
  \<^verbatim>\<open>int_rate\<close>. The first run can leave a table that does not meet this, since the
  rows are removed after the columns and the percentages are converted last; the second
  run then removes more.
\<close>

theorem C5_fixed_point:
  assumes "cleaned df = Some out"
    and "read_back out = Some out'" and "same_table out out'"
    and "\<forall>c\<in>set (columns out). \<exists>r\<in>set (rows out). r c \<noteq> Null"
    and "\<forall>c\<in>set (columns out). 5 * null_count out c \<le> 4 * length (rows out)"
    and "distinct_rows (columns out) (rows out)"
    and "''int_rate'' \<in> set (columns out) \<longrightarrow> (\<forall>r\<in>set (rows out). r ''int_rate'' \<noteq> Null)"
  shows "\<exists>out2. cleaned_again read_back df = Some out2 \<and> same_table out out2"
proof -
  from assms(1) obtain steps where c: "cleaning df = Some (out, steps)"
    by (auto simp: cleaned_def)
  have "filter (\<lambda>c. list_ex (\<lambda>r. \<not> isnull (r c)) (rows out)) (columns out) = columns out"
    using assms(4) by (simp add: filter_id_conv list_ex_iff isnull_def)
  then have s1: "stage1 out = out"
    by (simp add: stage_simps(1) dropna_all_columns_def)
  have hm: "high_missing out = []"
    using assms(5) by (auto simp: high_missing_def filter_empty_conv)
  have s2: "stage2 out = out"
    by (simp add: stage_simps(2) s1 hm drop_columns_def)
  have "dedup_rows (columns out) [] (rows out) = rows out"
    using assms(6) by (intro dedup_rows_distinct) simp_all
  then have s3: "stage3 out = out"
    by (simp add: stage_simps(3) s2 drop_duplicates_def)
  have keys: "r k \<noteq> Null"
    if "r \<in> set (rows out)" "k \<in> set key_cols" "k \<in> set (columns out)" for r k
  proof (cases "k = ''int_rate''")
    case True
    with assms(7) that show ?thesis by blast
  next
    case False
    from cleaned_keys [OF c that(1,2) False that(3)] show ?thesis .
  qed
  have "rows (stage4 out) = rows out"
    using keys by (simp add: stage_rows(5) s2 s3 filter_id_conv)
  moreover have "columns (stage4 out) = columns out"
    by (simp add: stage_columns(4) s2)
  ultimately have s4: "stage4 out = out" by (intro frame.equality) simp_all
  from removal_steps_eq [of out] obtain es where r: "removal_steps out = (out, es)"
    unfolding s4 by blast
  have one: "convert_percentage ''int_rate'' (out, es)
      = Some (out, es @ (if ''int_rate'' \<in> set (columns out) then [Converted ''int_rate''] else []))"
    using cleaned_not_str(1) [OF c] by (intro convert_percentage_id) blast
  have two: "convert_percentage ''revol_util'' (out, es') = Some (out,
      es' @ (if ''revol_util'' \<in> set (columns out) then [Converted ''revol_util''] else []))"
    for es'
    using cleaned_not_str(2) [OF c] by (intro convert_percentage_id) blast
  have "\<exists>steps'. cleaning out = Some (out, steps')"
    by (simp add: cleaning_def r convert_percentages_def one two)
  then obtain steps' where again: "cleaning out = Some (out, steps')" by blast
  with cleaning_same [OF assms(3)] obtain st where
    st: "cleaning out' = Some st" and same: "same_result (out, steps') st"
    by (cases "cleaning out'") simp_all
  from st have "cleaned out' = Some (fst st)" by (simp add: cleaned_def)
  with assms(1,2) have "cleaned_again read_back df = Some (fst st)"
    by (simp add: cleaned_again_def)
  moreover from same have "same_table out (fst st)" by (simp add: same_result_def)
  ultimately show ?thesis by blast
qed

text \<open>
  Claim C5 as it is stated fails on a raw table whose column \<^verbatim>\<open>note\<close> has its only
  value in the row that has no \<^verbatim>\<open>loan_amnt\<close>: the first run removes the row and keeps
  both columns. Its file, the line \<^verbatim>\<open>loan_amnt,note\<close> and the line \<^verbatim>\<open>1000.0,\<close>, is
  read back as the table that was written, and the second run removes the column
  \<^verbatim>\<open>note\<close>, now empty.
\<close>

theorem C5_second_run_counterexample:
  "map_option columns (cleaned thin_example) = Some [''loan_amnt'', ''note''] \<and>
   map_option columns (cleaned_again Some thin_example) = Some [''loan_amnt'']"
  by (simp add: cleaned_again_def cleaned_def thin_example_def mk_row_def cleaning_defs
      float_defs Let_def)

text \<open>
  The cleaned raw example table, of four rows, holds numbers, missing values and texts
  that are no numbers; read back with the data that was written, it is returned by a
  second run.
\<close>

theorem C5_fixed_point_witness:
  "\<exists>out. cleaned raw_example = Some out \<and> length (rows out) = 4 \<and>
     distinct_rows (columns out) (rows out) \<and> high_missing out = [] \<and>
     (\<exists>out2. cleaned_again Some raw_example = Some out2 \<and> same_table out out2)"
proof -
  obtain out where c: "cleaned raw_example = Some out"
    using raw_example_cleans by (cases "cleaning raw_example") (auto simp: cleaned_def)
  then have out: "out = the (cleaned raw_example)" by simp
  have h1: "\<forall>c\<in>set (columns out). \<exists>r\<in>set (rows out). r c \<noteq> Null"
    and h2: "\<forall>c\<in>set (columns out). 5 * null_count out c \<le> 4 * length (rows out)"
    and h3: "distinct_rows (columns out) (rows out)"
    and h4: "''int_rate'' \<in> set (columns out) \<longrightarrow> (\<forall>r\<in>set (rows out). r ''int_rate'' \<noteq> Null)"
    and len: "length (rows out) = 4"
    unfolding out
    by (simp_all add: cleaned_def raw_example_def raw_row_def mk_row_def cleaning_defs
        float_defs Let_def)
  from h2 have hm: "high_missing out = []"
    by (auto simp: high_missing_def filter_empty_conv)
  have same: "same_table out out"
    by (simp add: same_table_def list_all2_same row_eq_def list_all_iff)
  from C5_fixed_point [of raw_example out Some out, OF c refl same h1 h2 h3 h4]
  obtain out2 where "cleaned_again Some raw_example = Some out2" "same_table out out2"
    by blast
  with c len h3 hm show ?thesis by blast
qed

end
